theory Spec2Isabelle
  imports Main "HOL-Library.Word"
begin

unbundle bit_operations_syntax

section \<open>Python values and exceptions\<close>

text \<open>
  The module \<^verbatim>\<open>pyenv_parser.py\<close> defines one class, \<^verbatim>\<open>Env\<close>, holding two
  dictionaries: \<^verbatim>\<open>env_values\<close> (key to raw string) and \<^verbatim>\<open>custom_parsers\<close> (key to
  callable). Its methods read a raw string, pass it through the callable registered for the key
  and convert the result.

  A registered callable is typed \<^verbatim>\<open>Callable[[str], Any]\<close>, so the value that reaches a
  conversion is any Python value. The values below are the builtin kinds the conversions
  distinguish. \<open>PObj cls repr\<close> is an instance of a class defined outside the module (a float, a
  date, a timedelta, a UUID, a path, a parse result, an image, an enum member), named by its class
  and its printed form. Such an object is taken to compare unequal to every \<^verbatim>\<open>str\<close>, to have no
  \<^verbatim>\<open>split\<close> attribute and not to be bytes-like.

  A \<open>string\<close> is a list of code points below 256; a \<open>byte\<close> is an unsigned 8-bit value.
\<close>

type_synonym byte = "8 word"

datatype pyval =
    PNone
  | PBool bool
  | PInt int
  | PStr string
  | PBytes "byte list"
  | PList "pyval list"
  | PDict "(pyval \<times> pyval) list"
  | PObj string string

text \<open>
  Exceptions are values. \<open>EnvParseError\<close> is the module's own class; its message is kept as the
  f-string template together with the interpolated values, so that two messages are equal exactly
  when they come from the same \<^verbatim>\<open>raise\<close> with the same values. The other constructors
  are the builtin and library exceptions that the code can meet. \<open>BinasciiError\<close>,
  \<open>JSONDecodeError\<close> and \<open>ValidationError\<close> are subclasses of \<open>ValueError\<close> in Python,
  and \<open>KeyError\<close> is not.
\<close>

datatype exn =
    EnvParseError msg
  | ValueError
  | BinasciiError
  | JSONDecodeError
  | ValidationError
  | TypeError
  | AttributeError
  | KeyError
  | OverflowError
  | OtherException string
and msg =
    Env_file_does_not_exist string
      \<comment> \<open>\<^verbatim>\<open>f"Env file {env_file} does not exist"\<close>\<close>
  | Not_found string
      \<comment> \<open>\<^verbatim>\<open>f"{key} not found in environment variables"\<close>\<close>
  | Not_callable string
      \<comment> \<open>\<^verbatim>\<open>f"Provided parser for {key} is not callable"\<close>\<close>
  | Not_valid pyval string string
      \<comment> \<open>\<^verbatim>\<open>f"Value {value} for {key} is not a valid ..."\<close>, the third field being the
          words that end the message\<close>
  | Not_valid_date pyval string string
      \<comment> \<open>\<^verbatim>\<open>f"Value {value} for {key} is not a valid date. Expected format: {date_format}"\<close>\<close>
  | Not_valid_enum pyval string
      \<comment> \<open>\<^verbatim>\<open>f"Value {value} for {key} is not a valid enum option for {enum_type}"\<close>\<close>
  | Image_error exn
      \<comment> \<open>\<^verbatim>\<open>f"Error loading image from base64 data: {e}"\<close>\<close>

text \<open>\<^verbatim>\<open>except ValueError\<close> catches the class and its subclasses.\<close>

fun is_ValueError :: "exn \<Rightarrow> bool" where
  "is_ValueError ValueError = True"
| "is_ValueError BinasciiError = True"
| "is_ValueError JSONDecodeError = True"
| "is_ValueError ValidationError = True"
| "is_ValueError _ = False"

section \<open>String methods\<close>

text \<open>
  \<^verbatim>\<open>str.isspace\<close> on the code points below 256: tab to carriage return, the four
  separators \<open>0x1C\<close> to \<open>0x1F\<close>, the space, next-line \<open>0x85\<close> and the no-break space
  \<open>0xA0\<close>.
\<close>

definition py_isspace :: "char \<Rightarrow> bool" where
  "py_isspace c \<longleftrightarrow>
     c \<in> set [CHR 0x09, CHR 0x0A, CHR 0x0B, CHR 0x0C, CHR 0x0D,
              CHR 0x1C, CHR 0x1D, CHR 0x1E, CHR 0x1F, CHR 0x20, CHR 0x85, CHR 0xA0]"

text \<open>\<^verbatim>\<open>s.strip()\<close>: whitespace removed at both ends.\<close>

definition py_strip :: "string \<Rightarrow> string" where
  "py_strip s = rev (dropWhile py_isspace (rev (dropWhile py_isspace s)))"

text \<open>\<^verbatim>\<open>s.startswith(p)\<close>.\<close>

definition startswith :: "string \<Rightarrow> string \<Rightarrow> bool" where
  "startswith s p \<longleftrightarrow> take (length p) s = p"

text \<open>
  \<^verbatim>\<open>s.lower()\<close> on the code points below 256: the ASCII capitals and the Latin-1 capitals
  \<open>0xC0\<close> to \<open>0xDE\<close> (without the multiplication sign \<open>0xD7\<close>) move up by 32.
\<close>

definition lower_char :: "char \<Rightarrow> char" where
  "lower_char c =
     (let n = (of_char c :: nat)
      in if (65 \<le> n \<and> n \<le> 90) \<or> (192 \<le> n \<and> n \<le> 222 \<and> n \<noteq> 215)
         then char_of (n + 32) else c)"

definition py_lower :: "string \<Rightarrow> string" where
  "py_lower s = map lower_char s"

text \<open>
  \<^verbatim>\<open>s.split(sep, maxsplit)\<close> for a non-empty separator: the string is scanned from the
  left, every occurrence of \<open>sep\<close> found ends an item and the scan resumes after it, until
  \<open>maxsplit\<close> cuts have been made (\<open>None\<close>: no limit). \<open>cur\<close> is the item being read.
\<close>

function split_scan :: "string \<Rightarrow> nat option \<Rightarrow> string \<Rightarrow> string \<Rightarrow> string list" where
  "split_scan sep n cur s =
     (if s = [] \<or> n = Some 0 \<or> sep = [] then [cur @ s]
      else if take (length sep) s = sep
           then cur # split_scan sep (map_option (\<lambda>k. k - 1) n) [] (drop (length sep) s)
           else split_scan sep n (cur @ [hd s]) (tl s))"
  by pat_completeness auto
termination
  by (relation "measure (\<lambda>(sep, n, cur, s). length s)") auto

declare split_scan.simps [simp del]

text \<open>An empty separator raises \<^verbatim>\<open>ValueError("empty separator")\<close>.\<close>

definition py_split :: "string \<Rightarrow> string \<Rightarrow> nat option \<Rightarrow> exn + string list" where
  "py_split s sep maxsplit =
     (if sep = [] then Inl ValueError else Inr (split_scan sep maxsplit [] s))"

section \<open>Loading the file\<close>

text \<open>
  \<^verbatim>\<open>_load_env_file\<close> ignores the \<^verbatim>\<open>env_values\<close> it is given and reads the file named by
  \<^verbatim>\<open>values.get('env_file', '.env')\<close>. The file system is a map from a path to the lines
  that iterating over the open file yields (each with its line end); a path outside its domain
  makes \<^verbatim>\<open>open\<close> raise \<^verbatim>\<open>FileNotFoundError\<close>.

  The loop body, for one line: a line that is blank after \<^verbatim>\<open>strip()\<close>, or whose first
  character is \<open>#\<close>, is passed over; any other line is stripped and split at the first \<open>=\<close>,
  and the tuple assignment \<^verbatim>\<open>key, value = ...\<close> raises \<^verbatim>\<open>ValueError\<close> unless the split
  gave two parts.
\<close>

fun load_lines :: "string list \<Rightarrow> (string \<rightharpoonup> string) \<Rightarrow> exn + (string \<rightharpoonup> string)" where
  "load_lines [] env_dict = Inr env_dict"
| "load_lines (line # rest) env_dict =
     (if py_strip line \<noteq> [] \<and> \<not> startswith line ''#'' then
        (case py_split (py_strip line) ''='' (Some 1) of
           Inl e \<Rightarrow> Inl e
         | Inr [key, val] \<Rightarrow> load_lines rest (env_dict(key \<mapsto> val))
         | Inr _ \<Rightarrow> Inl ValueError)
      else load_lines rest env_dict)"

text \<open>Only \<^verbatim>\<open>FileNotFoundError\<close> is caught; it becomes an \<open>EnvParseError\<close>.\<close>

definition Env_load_env_file ::
  "(string \<rightharpoonup> string list) \<Rightarrow> (string \<rightharpoonup> string) \<Rightarrow> exn + (string \<rightharpoonup> string)" where
  "Env_load_env_file fs values =
     (let env_file = (case values ''env_file'' of None \<Rightarrow> ''.env'' | Some p \<Rightarrow> p)
      in case fs env_file of
           None \<Rightarrow> Inl (EnvParseError (Env_file_does_not_exist env_file))
         | Some lines \<Rightarrow> load_lines lines Map.empty)"

section \<open>Builtin and library conversions\<close>

text \<open>
  \<^verbatim>\<open>int(x)\<close> on text, as CPython reads a decimal literal: whitespace is skipped at both
  ends, one sign may come first, then digits in which single underscores may separate digits
  (none at the start, none at the end, no two in a row); anything else raises
  \<^verbatim>\<open>ValueError\<close>, and so does a literal of more than 4300 digits (the interpreter's default
  limit). The whitespace test is a parameter, since text and bytes differ in it.
\<close>

definition is_digit :: "char \<Rightarrow> bool" where
  "is_digit c \<longleftrightarrow> 48 \<le> (of_char c :: nat) \<and> (of_char c :: nat) \<le> 57"

definition digit_val :: "char \<Rightarrow> int" where
  "digit_val c = int (of_char c) - 48"

fun no_double_underscore :: "string \<Rightarrow> bool" where
  "no_double_underscore (a # b # cs) \<longleftrightarrow>
     \<not> (a = CHR ''_'' \<and> b = CHR ''_'') \<and> no_double_underscore (b # cs)"
| "no_double_underscore _ \<longleftrightarrow> True"

definition int_max_str_digits :: nat where
  "int_max_str_digits = 4300"

definition parse_long :: "(char \<Rightarrow> bool) \<Rightarrow> string \<Rightarrow> exn + int" where
  "parse_long isspace s =
     (let t = dropWhile isspace s;
          (sign, r) = (case t of
                         c # r' \<Rightarrow> if c = CHR ''+'' then (1, r')
                                   else if c = CHR ''-'' then (- 1, r') else (1, t)
                       | [] \<Rightarrow> (1, t));
          body = takeWhile (\<lambda>c. is_digit c \<or> c = CHR ''_'') r;
          rest = dropWhile (\<lambda>c. is_digit c \<or> c = CHR ''_'') r;
          digits = filter is_digit body
      in if body \<noteq> [] \<and> hd body \<noteq> CHR ''_'' \<and> last body \<noteq> CHR ''_''
            \<and> no_double_underscore body \<and> list_all isspace rest
            \<and> length digits \<le> int_max_str_digits
         then Inr (sign * foldl (\<lambda>acc c. 10 * acc + digit_val c) 0 digits)
         else Inl ValueError)"

text \<open>
  The whitespace of the C locale, which is what \<^verbatim>\<open>int\<close> skips in bytes. In text it
  skips these and the whitespace above 127, which it first replaces by spaces; the separators
  \<open>0x1C\<close> to \<open>0x1F\<close> stay and are not skipped.
\<close>

definition c_isspace :: "char \<Rightarrow> bool" where
  "c_isspace c \<longleftrightarrow> c \<in> set [CHR 0x09, CHR 0x0A, CHR 0x0B, CHR 0x0C, CHR 0x0D, CHR 0x20]"

definition int_isspace :: "char \<Rightarrow> bool" where
  "int_isspace c \<longleftrightarrow> c_isspace c \<or> c \<in> set [CHR 0x85, CHR 0xA0]"

definition char_of_byte :: "byte \<Rightarrow> char" where
  "char_of_byte b = char_of (unat b)"

definition byte_of_char :: "char \<Rightarrow> byte" where
  "byte_of_char c = of_nat (of_char c)"

text \<open>
  The functions of other packages that the getters call are parameters of the model: what
  \<^verbatim>\<open>float\<close>, \<^verbatim>\<open>datetime.strptime(...).date()\<close>, \<^verbatim>\<open>timedelta(seconds=...)\<close>,
  \<^verbatim>\<open>uuid.UUID\<close>, \<^verbatim>\<open>json.loads\<close>, \<^verbatim>\<open>Path\<close>, \<^verbatim>\<open>urlparse\<close> and
  \<^verbatim>\<open>Image.open\<close> return or raise, and what \<^verbatim>\<open>int\<close> makes of an object of a class of
  theirs. \<open>urlparse\<close> gives the scheme, the network location and the parse result itself.
\<close>

record pylib =
  py_float :: "pyval \<Rightarrow> exn + pyval"
  strptime_date :: "pyval \<Rightarrow> string \<Rightarrow> exn + pyval"
  timedelta_seconds :: "int \<Rightarrow> exn + pyval"
  uuid_UUID :: "pyval \<Rightarrow> exn + pyval"
  json_loads :: "pyval \<Rightarrow> exn + pyval"
  pathlib_Path :: "pyval \<Rightarrow> exn + pyval"
  urlparse :: "pyval \<Rightarrow> exn + pyval \<times> pyval \<times> pyval"
  Image_open :: "byte list \<Rightarrow> exn + pyval"
  object_int :: "string \<Rightarrow> string \<Rightarrow> exn + int"

text \<open>\<^verbatim>\<open>int(value)\<close> on any value.\<close>

fun py_int :: "pylib \<Rightarrow> pyval \<Rightarrow> exn + int" where
  "py_int L (PInt n) = Inr n"
| "py_int L (PBool b) = Inr (if b then 1 else 0)"
| "py_int L (PStr s) = parse_long int_isspace s"
| "py_int L (PBytes bs) = parse_long c_isspace (map char_of_byte bs)"
| "py_int L (PObj cls r) = object_int L cls r"
| "py_int L _ = Inl TypeError"

text \<open>
  \<^verbatim>\<open>conint()\<close> is pydantic's integer type without bounds; calling it on an integer gives
  an integer equal to it.
\<close>

definition conint :: "int \<Rightarrow> int" where
  "conint n = n"

text \<open>Truth value of an object, as \<^verbatim>\<open>all([...])\<close> tests it.\<close>

fun truthy :: "pyval \<Rightarrow> bool" where
  "truthy PNone = False"
| "truthy (PBool b) = b"
| "truthy (PInt n) = (n \<noteq> 0)"
| "truthy (PStr s) = (s \<noteq> [])"
| "truthy (PBytes bs) = (bs \<noteq> [])"
| "truthy (PList xs) = (xs \<noteq> [])"
| "truthy (PDict kvs) = (kvs \<noteq> [])"
| "truthy (PObj cls r) = True"

text \<open>
  \<^verbatim>\<open>value.split(sep)\<close> on any value: text is split, \<^verbatim>\<open>bytes.split\<close> rejects a text
  separator, and the other kinds have no such attribute.
\<close>

fun attr_split :: "pyval \<Rightarrow> string \<Rightarrow> exn + string list" where
  "attr_split (PStr s) sep = py_split s sep None"
| "attr_split (PBytes bs) sep = Inl TypeError"
| "attr_split _ sep = Inl AttributeError"

text \<open>
  \<^verbatim>\<open>dict(item.split(":") for item in items)\<close>: every element must have exactly two
  parts, else \<^verbatim>\<open>ValueError\<close>; a key met again keeps its place and takes the new value.
\<close>

definition dict_update :: "('k \<times> 'v) list \<Rightarrow> 'k \<Rightarrow> 'v \<Rightarrow> ('k \<times> 'v) list" where
  "dict_update d k v =
     (if k \<in> fst ` set d then map (\<lambda>(k', v'). if k' = k then (k', v) else (k', v')) d
      else d @ [(k, v)])"

fun build_dict :: "string list \<Rightarrow> (string \<times> string) list \<Rightarrow> exn + (string \<times> string) list" where
  "build_dict [] d = Inr d"
| "build_dict (item # items) d =
     (case py_split item '':'' None of
        Inl e \<Rightarrow> Inl e
      | Inr [k, v] \<Rightarrow> build_dict items (dict_update d k v)
      | Inr _ \<Rightarrow> Inl ValueError)"

text \<open>
  \<^verbatim>\<open>base64.b64decode(value)\<close> with its default \<^verbatim>\<open>validate=False\<close>. Text is first encoded
  as ASCII, which raises \<^verbatim>\<open>ValueError\<close> on a code point above 127; then
  \<^verbatim>\<open>binascii.a2b_base64\<close> runs its loop over the bytes (CPython 3.11 and later, not in
  strict mode): a character that is neither \<open>=\<close> nor in the alphabet is passed over, every
  alphabet character adds six bits, and a pad that completes the group of four ends the
  decoding. Data left in the middle of a group raises \<^verbatim>\<open>binascii.Error\<close>.
\<close>

definition BASE64_PAD :: byte where
  "BASE64_PAD = 61"

definition table_a2b_base64 :: "byte \<Rightarrow> byte" where
  "table_a2b_base64 c =
     (let n = unat c
      in if 65 \<le> n \<and> n \<le> 90 then of_nat (n - 65)
         else if 97 \<le> n \<and> n \<le> 122 then of_nat (n - 71)
         else if 48 \<le> n \<and> n \<le> 57 then of_nat (n + 4)
         else if n = 43 then 62
         else if n = 47 then 63
         else if n = 61 then 0
         else 255)"

fun a2b_loop :: "byte list \<Rightarrow> nat \<Rightarrow> byte \<Rightarrow> nat \<Rightarrow> byte list \<Rightarrow> exn + byte list" where
  "a2b_loop [] quad_pos leftchar pads bin_data =
     (if quad_pos \<noteq> 0 then Inl BinasciiError else Inr bin_data)"
| "a2b_loop (c # rest) quad_pos leftchar pads bin_data =
     (if c = BASE64_PAD then
        (if quad_pos \<ge> 2 then
           (if quad_pos + (pads + 1) \<ge> 4 then Inr bin_data
            else a2b_loop rest quad_pos leftchar (pads + 1) bin_data)
         else a2b_loop rest quad_pos leftchar pads bin_data)
      else
        (let this_ch = table_a2b_base64 c
         in if this_ch \<ge> 64 then a2b_loop rest quad_pos leftchar pads bin_data
            else if quad_pos = 0 then a2b_loop rest 1 this_ch 0 bin_data
            else if quad_pos = 1 then
              a2b_loop rest 2 (this_ch AND 0x0f) 0
                (bin_data @ [push_bit 2 leftchar OR drop_bit 4 this_ch])
            else if quad_pos = 2 then
              a2b_loop rest 3 (this_ch AND 0x03) 0
                (bin_data @ [push_bit 4 leftchar OR drop_bit 2 this_ch])
            else a2b_loop rest 0 0 0 (bin_data @ [push_bit 6 leftchar OR this_ch])))"

definition a2b_base64 :: "byte list \<Rightarrow> exn + byte list" where
  "a2b_base64 ascii_data = a2b_loop ascii_data 0 0 0 []"

definition is_ascii :: "char \<Rightarrow> bool" where
  "is_ascii c \<longleftrightarrow> (of_char c :: nat) < 128"

fun b64decode :: "pyval \<Rightarrow> exn + byte list" where
  "b64decode (PStr s) =
     (if list_all is_ascii s then a2b_base64 (map byte_of_char s) else Inl ValueError)"
| "b64decode (PBytes bs) = a2b_base64 bs"
| "b64decode _ = Inl TypeError"

section \<open>The class Env\<close>

text \<open>
  The object's state is its two dictionaries. A registered parser is a function from the raw
  string to a value or an exception; it is taken not to touch the object it is registered in.
\<close>

record env =
  env_values :: "string \<rightharpoonup> string"
  custom_parsers :: "string \<rightharpoonup> (string \<Rightarrow> exn + pyval)"

text \<open>
  A method takes the object and gives what it returns or raises together with the object
  afterwards. \<open>and_then\<close> runs a second step on the result of a first one that did not raise.
\<close>

type_synonym 'a action = "env \<Rightarrow> (exn + 'a) \<times> env"

definition and_then :: "'a action \<Rightarrow> ('a \<Rightarrow> 'b action) \<Rightarrow> 'b action" where
  "and_then m f = (\<lambda>self. case m self of
                            (Inl e, self') \<Rightarrow> (Inl e, self')
                          | (Inr x, self') \<Rightarrow> f x self')"

definition finish :: "exn + 'a \<Rightarrow> 'a action" where
  "finish r = (\<lambda>self. (r, self))"

text \<open>
  \<^verbatim>\<open>try: return r  except C as e: raise EnvParseError(m e)\<close>, and the sequencing of two
  computations that may raise.
\<close>

definition try_except :: "exn + 'a \<Rightarrow> (exn \<Rightarrow> bool) \<Rightarrow> (exn \<Rightarrow> msg) \<Rightarrow> exn + 'a" where
  "try_except r C m =
     (case r of Inr x \<Rightarrow> Inr x | Inl e \<Rightarrow> if C e then Inl (EnvParseError (m e)) else Inl e)"

definition on_result :: "exn + 'a \<Rightarrow> ('a \<Rightarrow> exn + 'b) \<Rightarrow> exn + 'b" where
  "on_result r f = (case r of Inl e \<Rightarrow> Inl e | Inr x \<Rightarrow> f x)"

text \<open>
  Construction: the validator's result becomes \<^verbatim>\<open>env_values\<close>, and
  \<^verbatim>\<open>custom_parsers\<close> is the dictionary given under that keyword, empty when none is
  given. The validator runs before any field is set and the class declares no field
  \<^verbatim>\<open>env_file\<close>, so the \<^verbatim>\<open>values\<close> it is given hold nothing. Pydantic turns a
  \<^verbatim>\<open>ValueError\<close> or \<^verbatim>\<open>TypeError\<close> raised by a validator into its
  \<^verbatim>\<open>ValidationError\<close>; any other exception leaves the constructor as it is.
\<close>

definition Env_init ::
  "(string \<rightharpoonup> string list) \<Rightarrow> (string \<rightharpoonup> (string \<Rightarrow> exn + pyval)) \<Rightarrow> exn + env" where
  "Env_init fs parsers =
     (case Env_load_env_file fs Map.empty of
        Inl e \<Rightarrow> Inl (if is_ValueError e \<or> e = TypeError then ValidationError else e)
      | Inr d \<Rightarrow> Inr \<lparr>env_values = d, custom_parsers = parsers\<rparr>)"

definition Env_get :: "string \<Rightarrow> string action" where
  "Env_get key = (\<lambda>self.
     if key \<notin> dom (env_values self) then (Inl (EnvParseError (Not_found key)), self)
     else (Inr (the (env_values self key)), self))"

definition Env_apply_custom_parser :: "string \<Rightarrow> string \<Rightarrow> pyval action" where
  "Env_apply_custom_parser key val = (\<lambda>self.
     if key \<in> dom (custom_parsers self) then (the (custom_parsers self key) val, self)
     else (Inr (PStr val), self))"

text \<open>The second argument of \<^verbatim>\<open>register_parser\<close> is any object, callable or not.\<close>

datatype parser_arg = Function "string \<Rightarrow> exn + pyval" | Value pyval

definition Env_register_parser :: "string \<Rightarrow> parser_arg \<Rightarrow> unit action" where
  "Env_register_parser key parser_func = (\<lambda>self.
     case parser_func of
       Value v \<Rightarrow> (Inl (EnvParseError (Not_callable key)), self)
     | Function f \<Rightarrow> (Inr (), self\<lparr>custom_parsers := (custom_parsers self)(key \<mapsto> f)\<rparr>))"

text \<open>
  Every getter starts with the same two calls, \<^verbatim>\<open>_get\<close> and
  \<^verbatim>\<open>_apply_custom_parser\<close>, and goes on with statements of its own that turn the value
  into the result. These statements are named \<open>convert_...\<close> below, one definition for each
  getter, and the getter follows.
\<close>

definition Env_str :: "string \<Rightarrow> pyval action" where
  "Env_str key =
     and_then (Env_get key) (\<lambda>val.
     Env_apply_custom_parser key val)"

definition convert_int :: "pylib \<Rightarrow> string \<Rightarrow> pyval \<Rightarrow> exn + int" where
  "convert_int L key val =
     try_except (on_result (py_int L val) (\<lambda>n. Inr (conint n)))
       is_ValueError (\<lambda>e. Not_valid val key ''integer'')"

definition Env_int :: "pylib \<Rightarrow> string \<Rightarrow> int action" where
  "Env_int L key =
     and_then (Env_get key) (\<lambda>val.
     and_then (Env_apply_custom_parser key val) (\<lambda>val.
     finish (convert_int L key val)))"

definition convert_float :: "pylib \<Rightarrow> string \<Rightarrow> pyval \<Rightarrow> exn + pyval" where
  "convert_float L key val =
     try_except (py_float L val) is_ValueError (\<lambda>e. Not_valid val key ''float'')"

definition Env_float :: "pylib \<Rightarrow> string \<Rightarrow> pyval action" where
  "Env_float L key =
     and_then (Env_get key) (\<lambda>val.
     and_then (Env_apply_custom_parser key val) (\<lambda>val.
     finish (convert_float L key val)))"

text \<open>In \<^verbatim>\<open>bool\<close> the raw string is lowered before the parser is applied.\<close>

definition convert_bool :: "string \<Rightarrow> pyval \<Rightarrow> exn + bool" where
  "convert_bool key val =
     (if val \<in> set [PStr ''true'', PStr ''1'', PStr ''yes''] then Inr True
      else if val \<in> set [PStr ''false'', PStr ''0'', PStr ''no''] then Inr False
      else Inl (EnvParseError (Not_valid val key ''boolean'')))"

definition Env_bool :: "string \<Rightarrow> bool action" where
  "Env_bool key =
     and_then (and_then (Env_get key) (\<lambda>raw. finish (Inr (py_lower raw)))) (\<lambda>val.
     and_then (Env_apply_custom_parser key val) (\<lambda>val.
     finish (convert_bool key val)))"

definition convert_date :: "pylib \<Rightarrow> string \<Rightarrow> string \<Rightarrow> pyval \<Rightarrow> exn + pyval" where
  "convert_date L key date_format val =
     try_except (strptime_date L val date_format)
       is_ValueError (\<lambda>e. Not_valid_date val key date_format)"

definition Env_date :: "pylib \<Rightarrow> string \<Rightarrow> string \<Rightarrow> pyval action" where
  "Env_date L key date_format =
     and_then (Env_get key) (\<lambda>val.
     and_then (Env_apply_custom_parser key val) (\<lambda>val.
     finish (convert_date L key date_format val)))"

definition convert_timedelta :: "pylib \<Rightarrow> string \<Rightarrow> pyval \<Rightarrow> exn + pyval" where
  "convert_timedelta L key val =
     try_except (on_result (py_int L val) (timedelta_seconds L))
       is_ValueError (\<lambda>e. Not_valid val key ''timedelta'')"

definition Env_timedelta :: "pylib \<Rightarrow> string \<Rightarrow> pyval action" where
  "Env_timedelta L key =
     and_then (Env_get key) (\<lambda>val.
     and_then (Env_apply_custom_parser key val) (\<lambda>val.
     finish (convert_timedelta L key val)))"

definition convert_uuid :: "pylib \<Rightarrow> string \<Rightarrow> pyval \<Rightarrow> exn + pyval" where
  "convert_uuid L key val =
     try_except (uuid_UUID L val) is_ValueError (\<lambda>e. Not_valid val key ''UUID'')"

definition Env_uuid :: "pylib \<Rightarrow> string \<Rightarrow> pyval action" where
  "Env_uuid L key =
     and_then (Env_get key) (\<lambda>val.
     and_then (Env_apply_custom_parser key val) (\<lambda>val.
     finish (convert_uuid L key val)))"

text \<open>Only \<^verbatim>\<open>json.JSONDecodeError\<close> is caught here.\<close>

definition convert_json :: "pylib \<Rightarrow> string \<Rightarrow> pyval \<Rightarrow> exn + pyval" where
  "convert_json L key val =
     try_except (json_loads L val) (\<lambda>e. e = JSONDecodeError) (\<lambda>e. Not_valid val key ''JSON'')"

definition Env_json :: "pylib \<Rightarrow> string \<Rightarrow> pyval action" where
  "Env_json L key =
     and_then (Env_get key) (\<lambda>val.
     and_then (Env_apply_custom_parser key val) (\<lambda>val.
     finish (convert_json L key val)))"

definition Env_path :: "pylib \<Rightarrow> string \<Rightarrow> pyval action" where
  "Env_path L key =
     and_then (Env_get key) (\<lambda>val.
     and_then (Env_apply_custom_parser key val) (\<lambda>val.
     finish (pathlib_Path L val)))"

definition convert_url :: "pylib \<Rightarrow> string \<Rightarrow> pyval \<Rightarrow> exn + pyval" where
  "convert_url L key val =
     on_result (urlparse L val) (\<lambda>(scheme, netloc, parsed).
       if list_all truthy [scheme, netloc] then Inr parsed
       else Inl (EnvParseError (Not_valid val key ''URL'')))"

definition Env_url :: "pylib \<Rightarrow> string \<Rightarrow> pyval action" where
  "Env_url L key =
     and_then (Env_get key) (\<lambda>val.
     and_then (Env_apply_custom_parser key val) (\<lambda>val.
     finish (convert_url L key val)))"

text \<open>\<^verbatim>\<open>enum_type[value]\<close> is the caller's enumeration, looked up by member name.\<close>

definition convert_enum :: "string \<Rightarrow> (pyval \<Rightarrow> exn + pyval) \<Rightarrow> pyval \<Rightarrow> exn + pyval" where
  "convert_enum key enum_type val =
     try_except (enum_type val) (\<lambda>e. e = KeyError) (\<lambda>e. Not_valid_enum val key)"

definition Env_enum :: "string \<Rightarrow> (pyval \<Rightarrow> exn + pyval) \<Rightarrow> pyval action" where
  "Env_enum key enum_type =
     and_then (Env_get key) (\<lambda>val.
     and_then (Env_apply_custom_parser key val) (\<lambda>val.
     finish (convert_enum key enum_type val)))"

definition convert_list :: "string \<Rightarrow> pyval \<Rightarrow> exn + string list" where
  "convert_list delimiter val =
     on_result (attr_split val delimiter) (\<lambda>items. Inr (map py_strip items))"

definition Env_list :: "string \<Rightarrow> string \<Rightarrow> string list action" where
  "Env_list key delimiter =
     and_then (Env_get key) (\<lambda>val.
     and_then (Env_apply_custom_parser key val) (\<lambda>val.
     finish (convert_list delimiter val)))"

text \<open>\<^verbatim>\<open>except Exception\<close> catches whatever the conversion raises.\<close>

definition convert_dict :: "string \<Rightarrow> pyval \<Rightarrow> exn + (string \<times> string) list" where
  "convert_dict key val =
     try_except (on_result (attr_split val '','') (\<lambda>items. build_dict items []))
       (\<lambda>e. True) (\<lambda>e. Not_valid val key ''dictionary format'')"

definition Env_dict :: "string \<Rightarrow> (string \<times> string) list action" where
  "Env_dict key =
     and_then (Env_get key) (\<lambda>val.
     and_then (Env_apply_custom_parser key val) (\<lambda>val.
     finish (convert_dict key val)))"

definition convert_base64 :: "string \<Rightarrow> pyval \<Rightarrow> exn + byte list" where
  "convert_base64 key val =
     try_except (b64decode val) is_ValueError (\<lambda>e. Not_valid val key ''base64 encoded data'')"

definition Env_base64_decode :: "string \<Rightarrow> byte list action" where
  "Env_base64_decode key =
     and_then (Env_get key) (\<lambda>val.
     and_then (Env_apply_custom_parser key val) (\<lambda>val.
     finish (convert_base64 key val)))"

text \<open>\<^verbatim>\<open>base64_image\<close> calls \<^verbatim>\<open>self.base64_decode\<close> and opens the bytes as an image.\<close>

definition open_image :: "pylib \<Rightarrow> byte list \<Rightarrow> exn + pyval" where
  "open_image L decoded = try_except (Image_open L decoded) (\<lambda>e. True) Image_error"

definition Env_base64_image :: "pylib \<Rightarrow> string \<Rightarrow> pyval action" where
  "Env_base64_image L key =
     and_then (Env_base64_decode key) (\<lambda>decoded.
     finish (open_image L decoded))"

text \<open>
  \<^verbatim>\<open>port\<close> resolves the value, which it uses in its message only, and calls
  \<^verbatim>\<open>self.int(key)\<close>, which resolves the value again.
\<close>

definition check_port :: "string \<Rightarrow> pyval \<Rightarrow> int \<Rightarrow> exn + int" where
  "check_port key val port =
     (if 1 \<le> port \<and> port \<le> 65535 then Inr port
      else Inl (EnvParseError (Not_valid val key ''port number'')))"

definition Env_port :: "pylib \<Rightarrow> string \<Rightarrow> int action" where
  "Env_port L key =
     and_then (Env_get key) (\<lambda>val.
     and_then (Env_apply_custom_parser key val) (\<lambda>val.
     and_then (Env_int L key) (\<lambda>port.
     finish (check_port key val port))))"

section \<open>The getters as one family\<close>

text \<open>
  The typed getters of the class, with the extra argument that three of them take. \<open>call\<close>
  runs one of them and gives its result as a value.
\<close>

datatype getter =
    G_str | G_int | G_float | G_bool | G_date string | G_timedelta | G_uuid | G_json
  | G_path | G_url | G_enum "pyval \<Rightarrow> exn + pyval" | G_list string | G_dict
  | G_base64_decode | G_base64_image | G_port

definition as_value :: "('a \<Rightarrow> pyval) \<Rightarrow> exn + 'a \<Rightarrow> exn + pyval" where
  "as_value c r = on_result r (\<lambda>x. Inr (c x))"

definition returning :: "('a \<Rightarrow> pyval) \<Rightarrow> 'a action \<Rightarrow> pyval action" where
  "returning c m = (\<lambda>self. case m self of (r, self') \<Rightarrow> (as_value c r, self'))"

definition of_strings :: "string list \<Rightarrow> pyval" where
  "of_strings items = PList (map PStr items)"

definition of_pairs :: "(string \<times> string) list \<Rightarrow> pyval" where
  "of_pairs d = PDict (map (\<lambda>(k, v). (PStr k, PStr v)) d)"

fun call :: "pylib \<Rightarrow> getter \<Rightarrow> string \<Rightarrow> pyval action" where
  "call L G_str key = Env_str key"
| "call L G_int key = returning PInt (Env_int L key)"
| "call L G_float key = Env_float L key"
| "call L G_bool key = returning PBool (Env_bool key)"
| "call L (G_date date_format) key = Env_date L key date_format"
| "call L G_timedelta key = Env_timedelta L key"
| "call L G_uuid key = Env_uuid L key"
| "call L G_json key = Env_json L key"
| "call L G_path key = Env_path L key"
| "call L G_url key = Env_url L key"
| "call L (G_enum enum_type) key = Env_enum key enum_type"
| "call L (G_list delimiter) key = returning of_strings (Env_list key delimiter)"
| "call L G_dict key = returning of_pairs (Env_dict key)"
| "call L G_base64_decode key = returning PBytes (Env_base64_decode key)"
| "call L G_base64_image key = Env_base64_image L key"
| "call L G_port key = returning PInt (Env_port L key)"

text \<open>
  The conversion step of each getter: what it does to the value that the resolution gave. For
  \<open>port\<close> it is the integer conversion followed by the range check, for the image getter the
  base64 decoding followed by the opening of the image.
\<close>

fun convert :: "pylib \<Rightarrow> getter \<Rightarrow> string \<Rightarrow> pyval \<Rightarrow> exn + pyval" where
  "convert L G_str key val = Inr val"
| "convert L G_int key val = as_value PInt (convert_int L key val)"
| "convert L G_float key val = convert_float L key val"
| "convert L G_bool key val = as_value PBool (convert_bool key val)"
| "convert L (G_date date_format) key val = convert_date L key date_format val"
| "convert L G_timedelta key val = convert_timedelta L key val"
| "convert L G_uuid key val = convert_uuid L key val"
| "convert L G_json key val = convert_json L key val"
| "convert L G_path key val = pathlib_Path L val"
| "convert L G_url key val = convert_url L key val"
| "convert L (G_enum enum_type) key val = convert_enum key enum_type val"
| "convert L (G_list delimiter) key val = as_value of_strings (convert_list delimiter val)"
| "convert L G_dict key val = as_value of_pairs (convert_dict key val)"
| "convert L G_base64_decode key val = as_value PBytes (convert_base64 key val)"
| "convert L G_base64_image key val = on_result (convert_base64 key val) (open_image L)"
| "convert L G_port key val =
     as_value PInt (on_result (convert_int L key val) (check_port key val))"

text \<open>The string that a getter hands to the registered parser, given the raw string.\<close>

fun parser_input :: "getter \<Rightarrow> string \<Rightarrow> string" where
  "parser_input G_bool raw = py_lower raw"
| "parser_input _ raw = raw"

text \<open>
  The resolution pipeline of the specification: look the key up, apply the parser registered
  for it if there is one, convert.
\<close>

definition pipeline :: "pylib \<Rightarrow> getter \<Rightarrow> string \<Rightarrow> env \<Rightarrow> exn + pyval" where
  "pipeline L g key self =
     (case env_values self key of
        None \<Rightarrow> Inl (EnvParseError (Not_found key))
      | Some raw \<Rightarrow>
          (case custom_parsers self key of
             None \<Rightarrow> convert L g key (PStr (parser_input g raw))
           | Some f \<Rightarrow> on_result (f (parser_input g raw)) (convert L g key)))"

text \<open>A library whose functions all raise, for the concrete instances below.\<close>

definition no_lib :: pylib where
  "no_lib = \<lparr>py_float = (\<lambda>v. Inl TypeError), strptime_date = (\<lambda>v f. Inl TypeError),
             timedelta_seconds = (\<lambda>n. Inl TypeError), uuid_UUID = (\<lambda>v. Inl TypeError),
             json_loads = (\<lambda>v. Inl TypeError), pathlib_Path = (\<lambda>v. Inl TypeError),
             urlparse = (\<lambda>v. Inl TypeError), Image_open = (\<lambda>v. Inl TypeError),
             object_int = (\<lambda>c r. Inl TypeError)\<rparr>"

section \<open>Notions of the specification\<close>

text \<open>The decimal numeral of a natural number, most significant digit first.\<close>

definition digit_char :: "nat \<Rightarrow> char" where
  "digit_char d = char_of (48 + d)"

fun decimal :: "nat \<Rightarrow> string" where
  "decimal n = (if n < 10 then [digit_char n] else decimal (n div 10) @ [digit_char (n mod 10)])"

declare decimal.simps [simp del]

text \<open>
  \<^verbatim>\<open>sep.join(items)\<close>, and whether \<open>sep\<close> occurs in a string: the two notions that say
  what splitting a string on a separator means.
\<close>

fun join :: "string \<Rightarrow> string list \<Rightarrow> string" where
  "join sep [] = []"
| "join sep [x] = x"
| "join sep (x # y # ys) = x @ sep @ join sep (y # ys)"

definition occurs_in :: "string \<Rightarrow> string \<Rightarrow> bool" where
  "occurs_in sep s \<longleftrightarrow> (\<exists>i\<le>length s. take (length sep) (drop i s) = sep)"

text \<open>
  The base64 alphabet: capitals, small letters, digits, \<open>+\<close> and \<open>/\<close>. Standard base64
  text is made of groups of four characters of the alphabet, the last group ending in one or
  two \<open>=\<close> when the data stopped short.
\<close>

definition in_alphabet :: "char \<Rightarrow> bool" where
  "in_alphabet c \<longleftrightarrow>
     (let n = (of_char c :: nat)
      in (65 \<le> n \<and> n \<le> 90) \<or> (97 \<le> n \<and> n \<le> 122) \<or> (48 \<le> n \<and> n \<le> 57)
         \<or> n = 43 \<or> n = 47)"

definition standard_base64 :: "string \<Rightarrow> bool" where
  "standard_base64 s \<longleftrightarrow>
     length s mod 4 = 0 \<and> dropWhile in_alphabet s \<in> set [[], ''='', ''=='']"

text \<open>
  What the decoder looks at: the characters of the alphabet and the pads. Text is well padded
  when its alphabet characters come to a multiple of four, or a pad follows three characters
  of a group, or two pads in a row follow two characters of a group.
\<close>

definition relevant :: "string \<Rightarrow> string" where
  "relevant s = filter (\<lambda>c. in_alphabet c \<or> c = CHR ''='') s"

definition data_count :: "string \<Rightarrow> nat" where
  "data_count s = length (filter in_alphabet s)"

definition well_padded :: "string \<Rightarrow> bool" where
  "well_padded t \<longleftrightarrow>
     data_count t mod 4 = 0
     \<or> (\<exists>i<length t. t ! i = CHR ''='' \<and>
           (data_count (take i t) mod 4 = 3
            \<or> (data_count (take i t) mod 4 = 2 \<and> Suc i < length t \<and> t ! Suc i = CHR ''='')))"

text \<open>
  The same from the middle of the decoder's loop: \<open>q\<close> characters of the current group have
  been read and \<open>p\<close> pads have been counted.
\<close>

definition accepts :: "nat \<Rightarrow> nat \<Rightarrow> string \<Rightarrow> bool" where
  "accepts q p t \<longleftrightarrow>
     (q + data_count t) mod 4 = 0
     \<or> (\<exists>i<length t. t ! i = CHR ''='' \<and>
           ((q + data_count (take i t)) mod 4 = 3
            \<or> ((q + data_count (take i t)) mod 4 = 2 \<and> Suc i < length t
                \<and> t ! Suc i = CHR ''='')))
     \<or> (p = 1 \<and> t \<noteq> [] \<and> hd t = CHR ''='')"

section \<open>Instances\<close>

text \<open>
  An object with four of the entries of the test fixture, one of them in capitals, and a parser
  that tells the raw string \<open>TRUE\<close> from any other.
\<close>

definition test_env :: env where
  "test_env = \<lparr>env_values = [''PORT'' \<mapsto> ''8080'', ''IS_ACTIVE'' \<mapsto> ''TRUE'',
                              ''SAMPLE_LIST'' \<mapsto> ''1,2,3'',
                              ''BASE64_IMAGE'' \<mapsto> ''aGVsbG8gd29ybGQ=''],
               custom_parsers = Map.empty\<rparr>"

definition yes_if_upper :: "string \<Rightarrow> exn + pyval" where
  "yes_if_upper x = Inr (PStr (if x = ''TRUE'' then ''yes'' else ''no''))"

text \<open>The parser of the port test: whatever the raw string, it answers \<open>99999\<close>.\<close>

definition always_99999 :: "string \<Rightarrow> exn + pyval" where
  "always_99999 x = Inr (PStr ''99999'')"

text \<open>A parser that answers \<^verbatim>\<open>None\<close>.\<close>

definition returns_None :: "string \<Rightarrow> exn + pyval" where
  "returns_None x = Inr PNone"

section \<open>The resolution pipeline\<close>

text \<open>Every getter is the pipeline on the object as it is, and returns the object as it was.\<close>

lemma call_pipeline: "call L g key self = (pipeline L g key self, self)"
  by (cases g)
     (auto simp: pipeline_def Env_str_def Env_int_def Env_float_def Env_bool_def Env_date_def
        Env_timedelta_def Env_uuid_def Env_json_def Env_path_def Env_url_def Env_enum_def
        Env_list_def Env_dict_def Env_base64_decode_def Env_base64_image_def Env_port_def
        Env_get_def Env_apply_custom_parser_def and_then_def finish_def returning_def
        as_value_def on_result_def dom_def
        split: option.splits sum.splits prod.splits)

text \<open>
  Claim C1, at an input where the code departs from it: with the raw string \<open>TRUE\<close> and the
  parser \<open>yes_if_upper\<close> registered, the claim has \<^verbatim>\<open>bool\<close> call the parser on
  \<open>TRUE\<close> and convert its answer \<open>yes\<close> to true. The code calls the parser on the lowered
  string \<open>true\<close>, gets \<open>no\<close> and returns false.
\<close>

theorem bool_parser_gets_lowered_string:
  "fst (Env_bool ''IS_ACTIVE'' (test_env\<lparr>custom_parsers := [''IS_ACTIVE'' \<mapsto> yes_if_upper]\<rparr>))
     = Inr False
   \<and> on_result (yes_if_upper ''TRUE'') (convert_bool ''IS_ACTIVE'') = Inr True"
  by code_simp

text \<open>
  Claim C2: a getter reads both dictionaries as they are when it is called. After
  \<^verbatim>\<open>register_parser(key, f)\<close> every getter called for the key converts what \<open>f\<close> gives
  on the raw string stored under the key (and raises the missing-key error when there is
  none); and after a raw string \<open>v\<close> has been put into \<^verbatim>\<open>env_values\<close> under the key,
  whether the key was there before or not, every getter called for the key works on \<open>v\<close>.
\<close>

theorem getters_read_current_state:
  "(let self' = snd (Env_register_parser key (Function f) self)
    in call L g key self' =
         (case env_values self key of
            None \<Rightarrow> Inl (EnvParseError (Not_found key))
          | Some raw \<Rightarrow> on_result (f (parser_input g raw)) (convert L g key), self'))
   \<and> (let self' = self\<lparr>env_values := (env_values self)(key \<mapsto> v)\<rparr>
      in call L g key self' =
           (case custom_parsers self key of
              None \<Rightarrow> convert L g key (PStr (parser_input g v))
            | Some h \<Rightarrow> on_result (h (parser_input g v)) (convert L g key), self'))"
  by (simp add: call_pipeline pipeline_def Env_register_parser_def Let_def split: option.splits)

theorem getters_read_current_state_witness:
  "env_values test_env ''TIMEDELTA'' = None
   \<and> call no_lib G_int ''TIMEDELTA'' test_env =
       (Inl (EnvParseError (Not_found ''TIMEDELTA'')), test_env)
   \<and> call no_lib G_int ''TIMEDELTA''
        (test_env\<lparr>env_values := (env_values test_env)(''TIMEDELTA'' \<mapsto> ''3600'')\<rparr>) =
       (Inr (PInt 3600), test_env\<lparr>env_values := (env_values test_env)(''TIMEDELTA'' \<mapsto> ''3600'')\<rparr>)
   \<and> call no_lib G_int ''PORT'' test_env = (Inr (PInt 8080), test_env)
   \<and> call no_lib G_int ''PORT'' (snd (Env_register_parser ''PORT'' (Function always_99999) test_env)) =
       (Inr (PInt 99999), snd (Env_register_parser ''PORT'' (Function always_99999) test_env))"
proof -
  have absent: "env_values test_env ''TIMEDELTA'' = None"
    by (simp add: test_env_def)
  have no_parser: "custom_parsers test_env ''TIMEDELTA'' = None"
    by (simp add: test_env_def)
  have present: "env_values test_env ''PORT'' = Some ''8080''"
    by (simp add: test_env_def)
  have c3600: "convert no_lib G_int ''TIMEDELTA'' (PStr ''3600'') = Inr (PInt 3600)"
    by code_simp
  have c99999: "on_result (always_99999 ''8080'') (convert no_lib G_int ''PORT'') = Inr (PInt 99999)"
    by code_simp
  have before_insert: "call no_lib G_int ''TIMEDELTA'' test_env =
       (Inl (EnvParseError (Not_found ''TIMEDELTA'')), test_env)"
    by (simp add: call_pipeline pipeline_def absent del: call.simps)
  have before_register: "call no_lib G_int ''PORT'' test_env = (Inr (PInt 8080), test_env)"
  proof -
    have "pipeline no_lib G_int ''PORT'' test_env = Inr (PInt 8080)" by code_simp
    then show ?thesis by (simp add: call_pipeline del: call.simps)
  qed
  from getters_read_current_state [of "''TIMEDELTA''" always_99999 test_env no_lib G_int "''3600''"]
  have after_insert: "call no_lib G_int ''TIMEDELTA''
        (test_env\<lparr>env_values := (env_values test_env)(''TIMEDELTA'' \<mapsto> ''3600'')\<rparr>) =
       (Inr (PInt 3600), test_env\<lparr>env_values := (env_values test_env)(''TIMEDELTA'' \<mapsto> ''3600'')\<rparr>)"
    by (simp add: Let_def no_parser c3600 del: call.simps convert.simps)
  from getters_read_current_state [of "''PORT''" always_99999 test_env no_lib G_int "''443''"]
  have after_register:
    "call no_lib G_int ''PORT'' (snd (Env_register_parser ''PORT'' (Function always_99999) test_env)) =
       (Inr (PInt 99999), snd (Env_register_parser ''PORT'' (Function always_99999) test_env))"
    by (simp add: Let_def present c99999 del: call.simps convert.simps)
  show ?thesis
    by (intro conjI) (rule absent before_insert after_insert before_register after_register)+
qed

text \<open>
  Claim C3: whatever the getter, a key that is not in \<^verbatim>\<open>env_values\<close> makes the call raise
  the error that says the key was not found; nothing is returned.
\<close>

theorem missing_key_raises:
  "key \<notin> dom (env_values self) \<Longrightarrow>
     call L g key self = (Inl (EnvParseError (Not_found key)), self)"
  by (simp add: call_pipeline pipeline_def dom_def split: option.splits)

theorem missing_key_raises_witness:
  "''MISSING_KEY'' \<notin> dom (env_values test_env) \<and>
   call no_lib G_port ''MISSING_KEY'' test_env =
     (Inl (EnvParseError (Not_found ''MISSING_KEY'')), test_env)"
  using missing_key_raises [of "''MISSING_KEY''" test_env no_lib G_port]
  by (simp add: test_env_def)

text \<open>
  Claim C10: a getter leaves the object as it found it, whether it returns or raises;
  \<^verbatim>\<open>register_parser\<close> changes \<^verbatim>\<open>custom_parsers\<close> at the key when its argument is
  callable, and nothing otherwise.
\<close>

theorem getters_leave_state_unchanged:
  "snd (call L g key self) = self \<and>
   snd (Env_register_parser key parser_func self) =
     (case parser_func of
        Function f \<Rightarrow> self\<lparr>custom_parsers := (custom_parsers self)(key \<mapsto> f)\<rparr>
      | Value v \<Rightarrow> self)"
  by (simp add: call_pipeline Env_register_parser_def split: parser_arg.splits)

section \<open>Loading\<close>

text \<open>
  Splitting at the first occurrence of a one-character separator: text without the separator
  stays whole, text with it gives what stands before and what stands after, and two parts
  always come from text of that form.
\<close>

lemma split_scan_no_sep:
  "c \<notin> set s \<Longrightarrow> split_scan [c] n cur s = [cur @ s]"
proof (induction s arbitrary: cur)
  case Nil
  show ?case by (simp add: split_scan.simps)
next
  case (Cons a s)
  then have "split_scan [c] n (cur @ [a]) s = [(cur @ [a]) @ s]" by simp
  with Cons.prems show ?case by (subst split_scan.simps) auto
qed

lemma split_scan_first:
  "c \<notin> set k \<Longrightarrow> split_scan [c] (Some 1) cur (k @ c # v) = [cur @ k, v]"
proof (induction k arbitrary: cur)
  case Nil
  show ?case by (subst split_scan.simps) (simp add: split_scan.simps)
next
  case (Cons a k)
  then have "split_scan [c] (Some 1) (cur @ [a]) (k @ c # v) = [(cur @ [a]) @ k, v]" by simp
  with Cons.prems show ?case by (subst split_scan.simps) auto
qed

lemma split_scan_two_parts:
  "split_scan [c] (Some 1) cur s = [a, b] \<Longrightarrow> cur @ s = a @ c # b"
proof (induction s arbitrary: cur)
  case Nil
  then show ?case by (simp add: split_scan.simps)
next
  case (Cons x s)
  show ?case
  proof (cases "x = c")
    case True
    with Cons.prems have "a = cur \<and> b = s"
      by (subst (asm) split_scan.simps) (simp add: split_scan.simps)
    with True show ?thesis by simp
  next
    case False
    with Cons.prems have "split_scan [c] (Some 1) (cur @ [x]) s = [a, b]"
      by (subst (asm) split_scan.simps) simp
    from Cons.IH [OF this] show ?thesis by simp
  qed
qed


text \<open>
  The loop over the lines, one line at a time: a prefix of the file is loaded first; a blank or
  comment line changes nothing; a line \<open>k=v\<close> stores \<open>v\<close> under \<open>k\<close>; a line without
  \<open>=\<close> raises; and \<^verbatim>\<open>ValueError\<close> is all that the loop raises.
\<close>

lemma load_lines_append:
  "load_lines (pre @ rest) d =
     (case load_lines pre d of Inl e \<Rightarrow> Inl e | Inr d' \<Rightarrow> load_lines rest d')"
  by (induction pre arbitrary: d) (auto split: sum.splits list.splits)

lemma load_lines_skip:
  "py_strip l = [] \<or> startswith l ''#'' \<Longrightarrow> load_lines (l # rest) d = load_lines rest d"
  by auto

lemma load_lines_store:
  assumes "py_strip l = k @ CHR ''='' # v" and "CHR ''='' \<notin> set k" and "\<not> startswith l ''#''"
  shows "load_lines (l # rest) d = load_lines rest (d(k \<mapsto> v))"
proof -
  have "split_scan ''='' (Some 1) [] (py_strip l) = [k, v]"
    using split_scan_first [of "CHR ''=''" k "[]" v] assms by simp
  with assms show ?thesis by (simp add: py_split_def)
qed

lemma load_lines_error: "load_lines ls d = Inl e \<Longrightarrow> e = ValueError"
  by (induction ls arbitrary: d) (auto simp: py_split_def split: if_splits sum.splits list.splits)

lemma load_lines_no_equals:
  assumes "py_strip l \<noteq> []" and "\<not> startswith l ''#''" and "CHR ''='' \<notin> set l"
  shows "load_lines (l # rest) d = Inl ValueError"
proof -
  have "set (py_strip l) \<subseteq> set l"
    by (auto simp: py_strip_def dest!: set_dropWhileD)
  with assms have "CHR ''='' \<notin> set (py_strip l)" by auto
  then have "split_scan ''='' (Some 1) [] (py_strip l) = [py_strip l]"
    using split_scan_no_sep [of "CHR ''=''" "py_strip l" "Some 1" "[]"] by simp
  with assms show ?thesis by (simp add: py_split_def)
qed

text \<open>Lines that do not read as \<open>k=...\<close> leave the entry of \<open>k\<close> alone.\<close>

lemma load_lines_keeps:
  assumes "load_lines post d1 = Inr d"
    and "\<forall>l'\<in>set post. startswith l' ''#'' \<or> (\<forall>v'. py_strip l' \<noteq> k @ CHR ''='' # v')"
  shows "d k = d1 k"
  using assms
proof (induction post arbitrary: d1)
  case Nil
  then show ?case by simp
next
  case (Cons l' post)
  show ?case
  proof (cases "py_strip l' \<noteq> [] \<and> \<not> startswith l' ''#''")
    case False
    with Cons show ?thesis by auto
  next
    case True
    with Cons.prems(1) obtain key val where
      sp: "split_scan ''='' (Some 1) [] (py_strip l') = [key, val]"
      and rest: "load_lines post (d1(key \<mapsto> val)) = Inr d"
      by (auto simp: py_split_def split: sum.splits list.splits)
    from split_scan_two_parts [OF sp] have "py_strip l' = key @ CHR ''='' # val" by simp
    with Cons.prems(2) True have "key \<noteq> k" by auto
    moreover from Cons.IH [OF rest] Cons.prems(2) have "d k = (d1(key \<mapsto> val)) k" by simp
    ultimately show ?thesis by simp
  qed
qed

text \<open>
  A line that is neither blank nor a comment and has no \<open>=\<close> makes the loading raise
  \<^verbatim>\<open>ValueError\<close>, wherever it stands in the file.
\<close>

lemma line_without_equals_fails:
  assumes "l \<in> set lines" and "py_strip l \<noteq> []" and "\<not> startswith l ''#''"
    and "CHR ''='' \<notin> set l"
  shows "load_lines lines d = Inl ValueError"
proof -
  from assms(1) obtain pre post where "lines = pre @ l # post"
    by (auto simp: in_set_conv_decomp)
  then show ?thesis
    using load_lines_no_equals [OF assms(2-4)] load_lines_error [of pre d]
    by (cases "load_lines pre d") (auto simp: load_lines_append)
qed


text \<open>
  Claim C5, at an input where the code departs from it: a file whose only line is \<open>FOO\<close>. The
  claim has the loading fail with the module's own error. The tuple assignment raises
  \<^verbatim>\<open>ValueError\<close>, which the validator does not catch, and the constructor raises pydantic's
  \<^verbatim>\<open>ValidationError\<close>.
\<close>

theorem line_without_equals_raises_ValueError:
  "Env_load_env_file [''.env'' \<mapsto> [''FOO'']] Map.empty = Inl ValueError
   \<and> Env_init [''.env'' \<mapsto> [''FOO'']] Map.empty = Inl ValidationError"
proof -
  have "load_lines [''FOO''] Map.empty = Inl ValueError"
    by (rule line_without_equals_fails [of "''FOO''"])
       (simp_all add: py_strip_def py_isspace_def startswith_def)
  then show ?thesis
    by (simp add: Env_load_env_file_def Env_init_def del: load_lines.simps)
qed

text \<open>
  Claim C6 as stated fails: a line that starts with \<open>#\<close> only after trimming is read as an
  entry, and here, having no \<open>=\<close>, it makes the loading raise.
\<close>

theorem indented_comment_counterexample:
  "startswith (py_strip '' # note'') ''#'' \<and> load_lines ['' # note''] Map.empty = Inl ValueError"
proof -
  have "load_lines ['' # note''] Map.empty = Inl ValueError"
    by (rule line_without_equals_fails [of "'' # note''"])
       (simp_all add: py_strip_def py_isspace_def startswith_def)
  then show ?thesis
    by (simp add: py_strip_def py_isspace_def startswith_def del: load_lines.simps)
qed

text \<open>
  Claim C6, amended: a line that is empty after trimming, or whose first character before any
  trimming is \<open>#\<close>, is ignored: the loading gives what it gives without the line.
\<close>

theorem comment_and_blank_lines_ignored:
  "py_strip l = [] \<or> startswith l ''#'' \<Longrightarrow>
     load_lines (pre @ l # post) d = load_lines (pre @ post) d"
  by (simp only: load_lines_append load_lines_skip)

theorem comment_and_blank_lines_ignored_witness:
  "(py_strip ''# note'' = [] \<or> startswith ''# note'' ''#'') \<and>
   load_lines ([''A=1''] @ ''# note'' # [''B=2'']) Map.empty =
     load_lines ([''A=1''] @ [''B=2'']) Map.empty"
  using comment_and_blank_lines_ignored [of "''# note''" "[''A=1'']" "[''B=2'']" Map.empty]
  by (simp add: startswith_def)

text \<open>
  Claim C7 as stated fails: the line is trimmed before it is split, so whitespace that ends the
  value is not stored.
\<close>

theorem trailing_space_counterexample:
  "(case Env_init [''.env'' \<mapsto> [''K=v '']] Map.empty of
      Inl e \<Rightarrow> Inl e
    | Inr self \<Rightarrow> fst (Env_str ''K'' self)) = Inr (PStr ''v'')
   \<and> tl (dropWhile (\<lambda>c. c \<noteq> CHR ''='') ''K=v '') \<noteq> ''v''"
  by code_simp

text \<open>
  Claim C7, amended: for a line that does not start with \<open>#\<close> and reads, once trimmed, as
  \<open>k=v\<close> with no \<open>=\<close> in \<open>k\<close>, and that no later line of the file replaces, the loading
  stores \<open>v\<close> under \<open>k\<close>: the text of the trimmed line after its first \<open>=\<close>, with any
  further \<open>=\<close> and the whitespace that follows the first one; \<^verbatim>\<open>str(k)\<close> on the object
  built returns it when no parser is registered.
\<close>

theorem stored_value_is_rest_of_trimmed_line:
  assumes "load_lines (pre @ l # post) d0 = Inr d"
    and "py_strip l = k @ CHR ''='' # v" and "CHR ''='' \<notin> set k"
    and "\<not> startswith l ''#''"
    and "\<forall>l'\<in>set post. startswith l' ''#'' \<or> (\<forall>v'. py_strip l' \<noteq> k @ CHR ''='' # v')"
  shows "d k = Some v \<and>
         Env_str k \<lparr>env_values = d, custom_parsers = Map.empty\<rparr> =
           (Inr (PStr v), \<lparr>env_values = d, custom_parsers = Map.empty\<rparr>)"
proof -
  from assms(1) obtain d1 where "load_lines pre d0 = Inr d1" and "load_lines (l # post) d1 = Inr d"
    by (auto simp: load_lines_append split: sum.splits)
  then have "load_lines post (d1(k \<mapsto> v)) = Inr d"
    using load_lines_store [OF assms(2-4)] by simp
  from load_lines_keeps [OF this assms(5)] have "d k = Some v" by simp
  then show ?thesis
    by (simp add: Env_str_def Env_get_def Env_apply_custom_parser_def and_then_def dom_def)
qed


theorem stored_value_is_rest_of_trimmed_line_witness:
  "load_lines ([''A=1''] @ ''K= v=w  '' # [''#K=2'']) Map.empty = Inr [''A'' \<mapsto> ''1'', ''K'' \<mapsto> '' v=w'']
   \<and> py_strip ''K= v=w  '' = ''K'' @ CHR ''='' # '' v=w'' \<and> CHR ''='' \<notin> set ''K''
   \<and> \<not> startswith ''K= v=w  '' ''#''
   \<and> startswith ''#K=2'' ''#''
   \<and> [''A'' \<mapsto> ''1'', ''K'' \<mapsto> '' v=w''] ''K'' = Some '' v=w''
   \<and> Env_str ''K'' \<lparr>env_values = [''A'' \<mapsto> ''1'', ''K'' \<mapsto> '' v=w''], custom_parsers = Map.empty\<rparr> =
       (Inr (PStr '' v=w''),
        \<lparr>env_values = [''A'' \<mapsto> ''1'', ''K'' \<mapsto> '' v=w''], custom_parsers = Map.empty\<rparr>)"
proof -
  have strip: "py_strip ''K= v=w  '' = ''K'' @ CHR ''='' # '' v=w''"
    by (simp add: py_strip_def py_isspace_def)
  have strip_A: "py_strip ''A=1'' = ''A'' @ CHR ''='' # ''1''"
    by (simp add: py_strip_def py_isspace_def)
  have no_eq: "CHR ''='' \<notin> set ''K''" by simp
  have no_hash: "\<not> startswith ''K= v=w  '' ''#''" by (simp add: startswith_def)
  have later: "\<forall>l'\<in>set [''#K=2'']. startswith l' ''#'' \<or> (\<forall>v'. py_strip l' \<noteq> ''K'' @ CHR ''='' # v')"
    by (simp add: startswith_def)
  have "load_lines ([''A=1''] @ ''K= v=w  '' # [''#K=2'']) Map.empty
          = load_lines [''K= v=w  '', ''#K=2''] [''A'' \<mapsto> ''1'']"
    using load_lines_store [OF strip_A, of "[''K= v=w  '', ''#K=2'']" Map.empty]
    by (simp add: startswith_def)
  also have "\<dots> = load_lines [''#K=2''] [''A'' \<mapsto> ''1'', ''K'' \<mapsto> '' v=w'']"
    by (rule load_lines_store [OF strip no_eq no_hash])
  also have "\<dots> = load_lines [] [''A'' \<mapsto> ''1'', ''K'' \<mapsto> '' v=w'']"
    by (rule load_lines_skip) (simp add: startswith_def)
  finally have load: "load_lines ([''A=1''] @ ''K= v=w  '' # [''#K=2'']) Map.empty
                        = Inr [''A'' \<mapsto> ''1'', ''K'' \<mapsto> '' v=w'']"
    by (simp only: load_lines.simps)
  from stored_value_is_rest_of_trimmed_line [OF load strip no_eq no_hash later]
  have c1: "[''A'' \<mapsto> ''1'', ''K'' \<mapsto> '' v=w''] ''K'' = Some '' v=w''"
    and c2: "Env_str ''K'' \<lparr>env_values = [''A'' \<mapsto> ''1'', ''K'' \<mapsto> '' v=w''], custom_parsers = Map.empty\<rparr> =
       (Inr (PStr '' v=w''),
        \<lparr>env_values = [''A'' \<mapsto> ''1'', ''K'' \<mapsto> '' v=w''], custom_parsers = Map.empty\<rparr>)"
    by blast+
  have hash: "startswith ''#K=2'' ''#''" by (simp add: startswith_def)
  show ?thesis
    by (intro conjI) (rule load strip no_eq no_hash hash c1 c2)+
qed

section \<open>The port getter\<close>

text \<open>\<^verbatim>\<open>int\<close> on text returns or raises \<^verbatim>\<open>ValueError\<close>.\<close>

lemma parse_long_error: "parse_long sp s = Inl e \<Longrightarrow> e = ValueError"
  by (auto simp: parse_long_def Let_def split: if_splits prod.splits)

text \<open>
  Under a key that is present, \<^verbatim>\<open>port\<close> is the integer conversion of the resolved value
  followed by the range check: the second resolution inside \<^verbatim>\<open>self.int\<close> gives the
  same value.
\<close>

lemma Env_port_resolved:
  assumes "env_values self key = Some raw"
    and "fst (Env_apply_custom_parser key raw self) = Inr val"
  shows "Env_port L key self = (on_result (convert_int L key val) (check_port key val), self)"
proof -
  from assms(2) have "Env_apply_custom_parser key raw self = (Inr val, self)"
    by (auto simp: Env_apply_custom_parser_def split: if_splits)
  with assms(1) show ?thesis
    by (simp add: Env_port_def Env_int_def Env_get_def and_then_def finish_def on_result_def
          dom_def split: sum.splits)
qed

text \<open>
  \<^verbatim>\<open>int\<close> reads the decimal numeral of \<open>n\<close> as \<open>n\<close>, as long as the numeral stays
  within the limit on digits; so a stored numeral is a port exactly when the number is in range.
\<close>

lemma is_digit_digit_char: "d < 10 \<Longrightarrow> is_digit (digit_char d)"
  by (simp add: is_digit_def digit_char_def)

lemma digit_val_digit_char: "d < 10 \<Longrightarrow> digit_val (digit_char d) = int d"
  by (simp add: digit_val_def digit_char_def)

lemma is_digit_plain:
  "is_digit c \<Longrightarrow> c \<noteq> CHR ''_'' \<and> c \<noteq> CHR ''+'' \<and> c \<noteq> CHR ''-'' \<and> \<not> int_isspace c"
  by (auto simp: is_digit_def int_isspace_def c_isspace_def)

lemma decimal_digits: "\<forall>c\<in>set (decimal n). is_digit c"
  by (induction n rule: decimal.induct) (subst decimal.simps, simp add: is_digit_digit_char)

lemma decimal_nonempty: "decimal n \<noteq> []"
  by (subst decimal.simps) simp

lemma decimal_value: "foldl (\<lambda>acc c. 10 * acc + digit_val c) 0 (decimal n) = int n"
proof (induction n rule: decimal.induct)
  case (1 n)
  show ?case
  proof (cases "n < 10")
    case True
    then show ?thesis by (subst decimal.simps) (simp add: digit_val_digit_char)
  next
    case False
    with 1 have "foldl (\<lambda>acc c. 10 * acc + digit_val c) 0 (decimal (n div 10)) = int (n div 10)"
      by simp
    with False show ?thesis
      by (subst decimal.simps) (simp add: digit_val_digit_char zdiv_int zmod_int)
  qed
qed

lemma decimal_length: "0 < n \<Longrightarrow> 10 ^ (length (decimal n) - 1) \<le> n"
proof (induction n rule: decimal.induct)
  case (1 n)
  show ?case
  proof (cases "n < 10")
    case True
    with "1.prems" show ?thesis by (subst decimal.simps) simp
  next
    case False
    then have pos: "0 < n div 10" by simp
    with False 1 have "10 ^ (length (decimal (n div 10)) - 1) \<le> n div 10" by simp
    then have "10 * 10 ^ (length (decimal (n div 10)) - 1) \<le> n" by simp
    moreover have "length (decimal (n div 10)) - 1 + 1 = length (decimal (n div 10))"
      using decimal_nonempty [of "n div 10"] by (cases "decimal (n div 10)") simp_all
    ultimately have "10 ^ length (decimal (n div 10)) \<le> n"
      by (metis power_Suc Suc_eq_plus1)
    with False show ?thesis by (subst decimal.simps) simp
  qed
qed

lemma no_double_underscore_free: "CHR ''_'' \<notin> set xs \<Longrightarrow> no_double_underscore xs"
  by (induction xs rule: no_double_underscore.induct) auto

lemma parse_long_decimal:
  assumes "n < 10 ^ int_max_str_digits"
  shows "parse_long int_isspace (decimal n) = Inr (int n)"
proof -
  let ?ds = "decimal n"
  have digits: "\<forall>c\<in>set ?ds. is_digit c" by (rule decimal_digits)
  obtain c cs where ds: "?ds = c # cs"
    using decimal_nonempty [of n] by (cases ?ds) auto
  have hd_plain: "c \<noteq> CHR ''+''" "c \<noteq> CHR ''-''" "\<not> int_isspace c"
    using digits is_digit_plain [of c] unfolding ds by auto
  have no_us: "CHR ''_'' \<notin> set ?ds" using digits is_digit_plain by blast
  have tw: "takeWhile (\<lambda>c. is_digit c \<or> c = CHR ''_'') ?ds = ?ds"
    using digits by (simp add: takeWhile_eq_all_conv)
  have dw: "dropWhile (\<lambda>c. is_digit c \<or> c = CHR ''_'') ?ds = []"
    using digits by simp
  have fl: "filter is_digit ?ds = ?ds" using digits by (simp add: filter_id_conv)
  have len: "length ?ds \<le> int_max_str_digits"
  proof (rule ccontr)
    assume "\<not> length ?ds \<le> int_max_str_digits"
    then have big: "int_max_str_digits \<le> length ?ds - 1" by simp
    have limit: "0 < int_max_str_digits" by (simp add: int_max_str_digits_def)
    have "0 < n"
    proof (rule ccontr)
      assume "\<not> 0 < n"
      then have "length ?ds = 1" by (simp add: decimal.simps)
      with big limit show False by simp
    qed
    then have low: "10 ^ (length ?ds - 1) \<le> n" by (rule decimal_length)
    have "(10::nat) ^ int_max_str_digits \<le> 10 ^ (length ?ds - 1)"
      by (rule power_increasing) (use big in simp_all)
    with low assms show False by linarith
  qed
  have ends: "hd ?ds \<noteq> CHR ''_''" "last ?ds \<noteq> CHR ''_''"
    using no_us decimal_nonempty [of n] by (metis hd_in_set, metis last_in_set)
  have start: "dropWhile int_isspace ?ds = ?ds"
    using hd_plain unfolding ds by simp
  have sign: "(case ?ds of
                 c # r' \<Rightarrow> if c = CHR ''+'' then (1, r')
                           else if c = CHR ''-'' then (- 1, r') else (1, ?ds)
               | [] \<Rightarrow> (1, ?ds)) = (1 :: int, ?ds)"
    using hd_plain by (simp add: ds)
  have ok: "?ds \<noteq> [] \<and> hd ?ds \<noteq> CHR ''_'' \<and> last ?ds \<noteq> CHR ''_''
            \<and> no_double_underscore ?ds \<and> list_all int_isspace []
            \<and> length ?ds \<le> int_max_str_digits"
    using ends len decimal_nonempty [of n] no_double_underscore_free [OF no_us] by simp
  show ?thesis
    unfolding parse_long_def Let_def start sign prod.case tw dw fl decimal_value
    using ok by simp
qed

lemma port_on_decimal_text:
  assumes "env_values self key = Some (decimal n)" and "custom_parsers self key = None"
    and "n < 10 ^ int_max_str_digits"
  shows "Env_port L key self =
           (if 1 \<le> n \<and> n \<le> 65535 then Inr (int n)
            else Inl (EnvParseError (Not_valid (PStr (decimal n)) key ''port number'')), self)"
proof -
  from assms(2)
  have "fst (Env_apply_custom_parser key (decimal n) self) = Inr (PStr (decimal n))"
    by (simp add: Env_apply_custom_parser_def dom_def)
  from Env_port_resolved [OF assms(1) this, of L] parse_long_decimal [OF assms(3)]
  show ?thesis
    by (simp add: convert_int_def check_port_def conint_def try_except_def on_result_def)
qed

text \<open>What \<^verbatim>\<open>int\<close> makes of the texts of the specification's example.\<close>

lemma parse_examples:
  "parse_long int_isspace ''8080'' = Inr 8080"
  "parse_long int_isspace ''99999'' = Inr 99999"
  "parse_long int_isspace ''0'' = Inr 0"
  "parse_long int_isspace ''http'' = Inl ValueError"
  by code_simp+

text \<open>
  Claim C4 as stated fails: a registered parser may answer a value that is not text, and on
  \<^verbatim>\<open>None\<close> the call \<^verbatim>\<open>int(value)\<close> raises \<^verbatim>\<open>TypeError\<close>, which the getter lets
  through as it is.
\<close>

theorem port_parser_returning_None_counterexample:
  "fst (Env_port no_lib ''PORT'' (test_env\<lparr>custom_parsers := [''PORT'' \<mapsto> returns_None]\<rparr>))
     = Inl TypeError"
  by code_simp

text \<open>
  Claim C4, amended: for a key whose resolved value is text, \<^verbatim>\<open>port\<close> converts the text to
  an integer and checks the range. When \<^verbatim>\<open>int\<close> reads the text as \<open>n\<close>, the getter
  returns \<open>n\<close> if \<open>1 \<le> n \<le> 65535\<close> and raises the module's error otherwise; when
  \<^verbatim>\<open>int\<close> does not read it as a number the getter raises the module's error. The decimal
  numeral of \<open>n\<close> is read as \<open>n\<close>; so \<open>8080\<close> is returned, and \<open>99999\<close>, \<open>0\<close> and
  \<open>http\<close> are refused.
\<close>

theorem port_converts_and_checks_range:
  assumes "env_values self key = Some raw"
    and "fst (Env_apply_custom_parser key raw self) = Inr (PStr s)"
  shows "Env_port L key self =
           (case parse_long int_isspace s of
              Inr n \<Rightarrow> if 1 \<le> n \<and> n \<le> 65535 then Inr n
                       else Inl (EnvParseError (Not_valid (PStr s) key ''port number''))
            | Inl e \<Rightarrow> Inl (EnvParseError (Not_valid (PStr s) key ''integer'')), self)
       \<and> (\<forall>n<10 ^ int_max_str_digits. s = decimal n \<longrightarrow>
             Env_port L key self =
               (if 1 \<le> n \<and> n \<le> 65535 then Inr (int n)
                else Inl (EnvParseError (Not_valid (PStr s) key ''port number'')), self))
       \<and> (s = ''8080'' \<longrightarrow> Env_port L key self = (Inr 8080, self))
       \<and> (s = ''99999'' \<longrightarrow>
             Env_port L key self =
               (Inl (EnvParseError (Not_valid (PStr ''99999'') key ''port number'')), self))
       \<and> (s = ''0'' \<longrightarrow>
             Env_port L key self =
               (Inl (EnvParseError (Not_valid (PStr ''0'') key ''port number'')), self))
       \<and> (s = ''http'' \<longrightarrow>
             Env_port L key self =
               (Inl (EnvParseError (Not_valid (PStr ''http'') key ''integer'')), self))"
proof -
  have port: "Env_port L key self =
      (on_result (convert_int L key (PStr s)) (check_port key (PStr s)), self)"
    using assms by (rule Env_port_resolved)
  have general: "Env_port L key self =
           (case parse_long int_isspace s of
              Inr n \<Rightarrow> if 1 \<le> n \<and> n \<le> 65535 then Inr n
                       else Inl (EnvParseError (Not_valid (PStr s) key ''port number''))
            | Inl e \<Rightarrow> Inl (EnvParseError (Not_valid (PStr s) key ''integer'')), self)"
    using parse_long_error [of int_isspace s]
    by (cases "parse_long int_isspace s")
       (auto simp: port convert_int_def check_port_def conint_def try_except_def on_result_def)
  have numerals: "\<forall>n<10 ^ int_max_str_digits. s = decimal n \<longrightarrow>
             Env_port L key self =
               (if 1 \<le> n \<and> n \<le> 65535 then Inr (int n)
                else Inl (EnvParseError (Not_valid (PStr s) key ''port number'')), self)"
  proof (intro allI impI)
    fix n :: nat
    assume "n < 10 ^ int_max_str_digits" and "s = decimal n"
    then have "parse_long int_isspace s = Inr (int n)" by (simp add: parse_long_decimal)
    then show "Env_port L key self =
               (if 1 \<le> n \<and> n \<le> 65535 then Inr (int n)
                else Inl (EnvParseError (Not_valid (PStr s) key ''port number'')), self)"
      by (simp add: general)
  qed
  have examples:
    "s = ''8080'' \<longrightarrow> Env_port L key self = (Inr 8080, self)"
    "s = ''99999'' \<longrightarrow> Env_port L key self =
        (Inl (EnvParseError (Not_valid (PStr ''99999'') key ''port number'')), self)"
    "s = ''0'' \<longrightarrow> Env_port L key self =
        (Inl (EnvParseError (Not_valid (PStr ''0'') key ''port number'')), self)"
    "s = ''http'' \<longrightarrow> Env_port L key self =
        (Inl (EnvParseError (Not_valid (PStr ''http'') key ''integer'')), self)"
    using parse_examples by (auto simp: general)
  from general numerals examples show ?thesis by blast
qed

theorem port_converts_and_checks_range_witness:
  "env_values test_env ''PORT'' = Some ''8080''
   \<and> fst (Env_apply_custom_parser ''PORT'' ''8080'' test_env) = Inr (PStr ''8080'')
   \<and> Env_port no_lib ''PORT'' test_env = (Inr 8080, test_env)"
proof -
  have present: "env_values test_env ''PORT'' = Some ''8080''"
    by (simp add: test_env_def)
  have resolved: "fst (Env_apply_custom_parser ''PORT'' ''8080'' test_env) = Inr (PStr ''8080'')"
    by (simp add: Env_apply_custom_parser_def test_env_def)
  from port_converts_and_checks_range [OF present resolved, of no_lib]
  have "Env_port no_lib ''PORT'' test_env = (Inr 8080, test_env)" by blast
  with present resolved show ?thesis by blast
qed

section \<open>The list getter\<close>

text \<open>
  What the split gives: at least one item; items that, joined by the separator, give the text
  back; and items in which the separator does not occur.
\<close>

lemma split_scan_nonempty: "split_scan sep n cur s \<noteq> []"
proof (induction sep n cur s rule: split_scan.induct)
  case (1 sep n cur s)
  then show ?case by (subst split_scan.simps) auto
qed

lemma join_Cons: "xs \<noteq> [] \<Longrightarrow> join sep (x # xs) = x @ sep @ join sep xs"
  by (cases xs) simp_all

lemma join_split_scan: "sep \<noteq> [] \<Longrightarrow> join sep (split_scan sep n cur s) = cur @ s"
proof (induction sep n cur s rule: split_scan.induct)
  case (1 sep n cur s)
  show ?case
  proof (cases "s = [] \<or> n = Some 0")
    case True
    then show ?thesis by (subst split_scan.simps) auto
  next
    case stop: False
    show ?thesis
    proof (cases "take (length sep) s = sep")
      case True
      with stop "1.prems" "1.IH"(1)
      have "join sep (split_scan sep (map_option (\<lambda>k. k - 1) n) [] (drop (length sep) s))
              = drop (length sep) s" by simp
      moreover have "s = sep @ drop (length sep) s"
        using True by (metis append_take_drop_id)
      ultimately show ?thesis
        using stop True "1.prems"
        by (subst split_scan.simps) (simp add: join_Cons split_scan_nonempty)
    next
      case False
      with stop "1.prems" "1.IH"(2)
      have "join sep (split_scan sep n (cur @ [hd s]) (tl s)) = (cur @ [hd s]) @ tl s" by simp
      with stop False "1.prems" show ?thesis
        by (subst split_scan.simps) simp
    qed
  qed
qed

lemma split_scan_items_free:
  assumes "sep \<noteq> []"
    and "\<forall>i<length cur. take (length sep) (drop i (cur @ s)) \<noteq> sep"
  shows "\<forall>x\<in>set (split_scan sep None cur s). \<not> occurs_in sep x"
  using assms
proof (induction sep "None :: nat option" cur s rule: split_scan.induct)
  case (1 sep cur s)
  show ?case
  proof (cases "s = []")
    case True
    have "\<not> occurs_in sep cur"
      unfolding occurs_in_def
    proof (rule notI, elim exE conjE)
      fix i assume i: "i \<le> length cur" and eq: "take (length sep) (drop i cur) = sep"
      show False
      proof (cases "i < length cur")
        case True
        with "1.prems"(2) \<open>s = []\<close> eq show False by simp
      next
        case False
        with i eq "1.prems"(1) show False by simp
      qed
    qed
    with True show ?thesis by (subst split_scan.simps) simp
  next
    case ne: False
    show ?thesis
    proof (cases "take (length sep) s = sep")
      case True
      have "\<not> occurs_in sep cur"
        unfolding occurs_in_def
      proof (rule notI, elim exE conjE)
        fix i assume i: "i \<le> length cur" and eq: "take (length sep) (drop i cur) = sep"
        show False
        proof (cases "i < length cur")
          case True
          from eq have "length (take (length sep) (drop i cur)) = length sep" by simp
          then have "length sep \<le> length cur - i" by simp
          then have same: "take (length sep) (drop i (cur @ s)) = take (length sep) (drop i cur)"
            using True by simp
          from "1.prems"(2) True have "take (length sep) (drop i (cur @ s)) \<noteq> sep" by blast
          then have "take (length sep) (drop i cur) \<noteq> sep" unfolding same .
          with eq show False by blast
        next
          case False
          with i eq "1.prems"(1) show False by simp
        qed
      qed
      moreover from ne True "1.prems"(1) "1.hyps"(1)
      have "\<forall>x\<in>set (split_scan sep None [] (drop (length sep) s)). \<not> occurs_in sep x"
        by simp
      ultimately show ?thesis
        using ne True "1.prems"(1) by (subst split_scan.simps) simp
    next
      case False
      have "\<forall>i<length (cur @ [hd s]). take (length sep) (drop i ((cur @ [hd s]) @ tl s)) \<noteq> sep"
      proof (intro allI impI)
        fix i assume "i < length (cur @ [hd s])"
        then consider "i < length cur" | "i = length cur" by force
        then show "take (length sep) (drop i ((cur @ [hd s]) @ tl s)) \<noteq> sep"
        proof cases
          case 1
          with "1.prems"(2) ne show ?thesis by simp
        next
          case 2
          with False ne show ?thesis by simp
        qed
      qed
      with ne False "1.prems"(1) "1.hyps"(2)
      have "\<forall>x\<in>set (split_scan sep None (cur @ [hd s]) (tl s)). \<not> occurs_in sep x"
        by simp
      with ne False "1.prems"(1) show ?thesis
        by (subst split_scan.simps) simp
    qed
  qed
qed


text \<open>
  Claim C9 as stated fails: with an empty delimiter \<^verbatim>\<open>split\<close> raises, and the getter with it.
\<close>

theorem empty_delimiter_counterexample:
  "fst (Env_list ''SAMPLE_LIST'' [] test_env) = Inl ValueError"
  by code_simp

text \<open>
  Claim C9, amended: for a key whose resolved value is text and for a delimiter that is not
  empty, the list getter does not fail: it returns the trimmed items of the split, and the
  items of the split joined by the delimiter give the text back and have no delimiter in them.
\<close>

theorem list_splits_and_trims:
  assumes "env_values self key = Some raw"
    and "fst (Env_apply_custom_parser key raw self) = Inr (PStr s)"
    and "delimiter \<noteq> []"
  shows "\<exists>items. Env_list key delimiter self = (Inr (map py_strip items), self)
                 \<and> join delimiter items = s
                 \<and> (\<forall>x\<in>set items. \<not> occurs_in delimiter x)"
proof -
  from assms(2) have resolved: "Env_apply_custom_parser key raw self = (Inr (PStr s), self)"
    by (auto simp: Env_apply_custom_parser_def split: if_splits)
  with assms(1,3)
  have "Env_list key delimiter self =
          (Inr (map py_strip (split_scan delimiter None [] s)), self)"
    by (simp add: Env_list_def Env_get_def and_then_def finish_def convert_list_def
          on_result_def py_split_def dom_def)
  moreover have "join delimiter (split_scan delimiter None [] s) = s"
    using join_split_scan [OF assms(3), of None "[]" s] by simp
  moreover have "\<forall>x\<in>set (split_scan delimiter None [] s). \<not> occurs_in delimiter x"
    by (rule split_scan_items_free [OF assms(3)]) simp
  ultimately show ?thesis by blast
qed

theorem list_splits_and_trims_witness:
  "env_values test_env ''SAMPLE_LIST'' = Some ''1,2,3''
   \<and> fst (Env_apply_custom_parser ''SAMPLE_LIST'' ''1,2,3'' test_env) = Inr (PStr ''1,2,3'')
   \<and> '','' \<noteq> []
   \<and> (\<exists>items. Env_list ''SAMPLE_LIST'' '','' test_env = (Inr (map py_strip items), test_env)
               \<and> join '','' items = ''1,2,3'')
   \<and> fst (Env_list ''SAMPLE_LIST'' '','' test_env) = Inr [''1'', ''2'', ''3'']"
proof -
  have present: "env_values test_env ''SAMPLE_LIST'' = Some ''1,2,3''"
    by (simp add: test_env_def)
  have resolved:
    "fst (Env_apply_custom_parser ''SAMPLE_LIST'' ''1,2,3'' test_env) = Inr (PStr ''1,2,3'')"
    by (simp add: Env_apply_custom_parser_def test_env_def)
  have delim: "'','' \<noteq> []" by simp
  have items: "fst (Env_list ''SAMPLE_LIST'' '','' test_env) = Inr [''1'', ''2'', ''3'']"
    by code_simp
  from list_splits_and_trims [OF present resolved delim]
  have "\<exists>items. Env_list ''SAMPLE_LIST'' '','' test_env = (Inr (map py_strip items), test_env)
               \<and> join '','' items = ''1,2,3''"
    by blast
  with present resolved delim items show ?thesis by blast
qed

section \<open>The base64 getter\<close>

text \<open>
  The decoder's table and the alphabet agree on every character, and the pad is the byte of
  \<open>=\<close> only.
\<close>

lemma char_facts:
  "\<forall>c. (byte_of_char c = BASE64_PAD) = (c = CHR ''='')
      \<and> (table_a2b_base64 (byte_of_char c) < 64) = (in_alphabet c \<or> c = CHR ''='')
      \<and> (in_alphabet c \<longrightarrow> c \<noteq> CHR ''='' \<and> is_ascii c)"
  by code_simp

lemma pad_char: "(byte_of_char c = BASE64_PAD) = (c = CHR ''='')"
  using char_facts by blast

lemma table_char: "(table_a2b_base64 (byte_of_char c) < 64) = (in_alphabet c \<or> c = CHR ''='')"
  using char_facts by blast

lemma alphabet_not_pad: "in_alphabet c \<Longrightarrow> c \<noteq> CHR ''=''"
  using char_facts by blast

lemma alphabet_ascii: "in_alphabet c \<Longrightarrow> is_ascii c"
  using char_facts by blast

text \<open>The loop passes over the characters that are neither in the alphabet nor pads.\<close>

lemma a2b_loop_relevant:
  "a2b_loop (map byte_of_char s) q l p out = a2b_loop (map byte_of_char (relevant s)) q l p out"
proof (induction s arbitrary: q l p out)
  case Nil
  show ?case by (simp add: relevant_def)
next
  case (Cons c s)
  show ?case
  proof (cases "in_alphabet c \<or> c = CHR ''=''")
    case True
    have "relevant (c # s) = c # relevant s" using True by (simp add: relevant_def)
    then show ?thesis
      using Cons.IH by (simp add: Let_def)
  next
    case False
    then have skip: "byte_of_char c \<noteq> BASE64_PAD" "\<not> table_a2b_base64 (byte_of_char c) < 64"
      using pad_char [of c] table_char [of c] by auto
    have "relevant (c # s) = relevant s" using False by (simp add: relevant_def)
    then show ?thesis
      using Cons.IH skip by (simp add: Let_def not_less)
  qed
qed

text \<open>
  On what is left, the loop ends well exactly when the text is well padded from the state the
  loop is in. A pad ends the decoding when it completes the group, is counted after two
  characters of a group and is passed over otherwise; a character of the alphabet moves to the
  next place in the group and clears the count of pads.
\<close>

lemma accepts_pad:
  assumes "q < 4" and "p = 0 \<or> (p = 1 \<and> q = 2)"
  shows "accepts q p (CHR ''='' # t) \<longleftrightarrow>
           (if 2 \<le> q then (if 4 \<le> q + (p + 1) then True else accepts q (p + 1) t)
            else accepts q p t)"
proof -
  have dc: "data_count (CHR ''='' # u) = data_count u" for u
    using alphabet_not_pad by (auto simp: data_count_def)
  have dc0: "data_count [] = 0" by (simp add: data_count_def)
  have hd_nth: "(t \<noteq> [] \<and> hd t = CHR ''='') = (0 < length t \<and> t ! 0 = CHR ''='')"
    by (cases t) auto
  from assms consider "q = 3" | "q = 2" "p = 1" | "q = 2" "p = 0" | "q < 2" "p = 0"
    by linarith
  then show ?thesis
  proof cases
    case 1
    then show ?thesis by (simp add: accepts_def Ex_less_Suc2 dc0)
  next
    case 2
    then show ?thesis by (simp add: accepts_def)
  next
    case 3
    then show ?thesis
      by (simp add: accepts_def Ex_less_Suc2 dc dc0 hd_nth disj_ac)
  next
    case 4
    then have "q = 0 \<or> q = 1" by linarith
    with 4 show ?thesis
      by (auto simp: accepts_def Ex_less_Suc2 dc dc0)
  qed
qed

lemma accepts_data:
  assumes "q < 4" and "in_alphabet c"
  shows "accepts q p (c # t) \<longleftrightarrow> accepts ((q + 1) mod 4) 0 t"
proof -
  have dc: "data_count (c # u) = Suc (data_count u)" for u
    using assms(2) by (simp add: data_count_def)
  have m: "(Suc q mod 4 + n) mod 4 = Suc (q + n) mod 4" for n
    by presburger
  from assms(2) have "c \<noteq> CHR ''=''" by (rule alphabet_not_pad)
  then show ?thesis
    by (simp add: accepts_def Ex_less_Suc2 dc m)
qed


lemma a2b_loop_accepts:
  assumes "q < 4" and "p = 0 \<or> (p = 1 \<and> q = 2)"
    and "\<forall>c\<in>set t. in_alphabet c \<or> c = CHR ''=''"
  shows "(\<exists>bs. a2b_loop (map byte_of_char t) q l p out = Inr bs) \<longleftrightarrow> accepts q p t"
  using assms
proof (induction t arbitrary: q l p out)
  case Nil
  then show ?case by (auto simp: accepts_def data_count_def)
next
  case (Cons c t)
  from Cons.prems(3) have rest: "\<forall>c\<in>set t. in_alphabet c \<or> c = CHR ''=''" by simp
  show ?case
  proof (cases "c = CHR ''=''")
    case True
    from Cons.prems(1,2) consider "q = 3" | "q = 2" "p = 1" | "q = 2" "p = 0" | "q < 2" "p = 0"
      by linarith
    then show ?thesis
    proof cases
      case 1
      with True show ?thesis
        using accepts_pad [OF Cons.prems(1,2), of t] by (simp add: pad_char)
    next
      case 2
      with True show ?thesis
        using accepts_pad [OF Cons.prems(1,2), of t] by (simp add: pad_char)
    next
      case 3
      with True show ?thesis
        using accepts_pad [OF Cons.prems(1,2), of t] Cons.IH [of 2 1 l out] rest
        by (simp add: pad_char)
    next
      case 4
      with True show ?thesis
        using accepts_pad [OF Cons.prems(1,2), of t] Cons.IH [of q 0 l out] rest
        by (simp add: pad_char)
    qed
  next
    case False
    with Cons.prems(3) have data: "in_alphabet c" by simp
    have no_pad: "byte_of_char c \<noteq> BASE64_PAD" using False by (simp add: pad_char)
    have in_table: "\<not> 64 \<le> table_a2b_base64 (byte_of_char c)"
      using data table_char [of c] by (simp add: not_le)
    have acc: "accepts q p (c # t) = accepts ((q + 1) mod 4) 0 t"
      by (rule accepts_data [OF Cons.prems(1) data])
    from Cons.prems(1) consider "q = 0" | "q = 1" | "q = 2" | "q = 3" by linarith
    then show ?thesis
    proof cases
      case 1
      have loop: "a2b_loop (map byte_of_char (c # t)) q l p out =
                    a2b_loop (map byte_of_char t) 1 (table_a2b_base64 (byte_of_char c)) 0 out"
        using 1 no_pad in_table by (simp add: Let_def)
      have nxt: "(q + 1) mod 4 = 1" using 1 by simp
      show ?thesis unfolding loop acc nxt by (rule Cons.IH) (simp_all add: rest)
    next
      case 2
      have loop: "a2b_loop (map byte_of_char (c # t)) q l p out =
                    a2b_loop (map byte_of_char t) 2 (table_a2b_base64 (byte_of_char c) AND 0x0f) 0
                      (out @ [push_bit 2 l OR drop_bit 4 (table_a2b_base64 (byte_of_char c))])"
        using 2 no_pad in_table by (simp add: Let_def)
      have nxt: "(q + 1) mod 4 = 2" using 2 by simp
      show ?thesis unfolding loop acc nxt by (rule Cons.IH) (simp_all add: rest)
    next
      case 3
      have loop: "a2b_loop (map byte_of_char (c # t)) q l p out =
                    a2b_loop (map byte_of_char t) 3 (table_a2b_base64 (byte_of_char c) AND 0x03) 0
                      (out @ [push_bit 4 l OR drop_bit 2 (table_a2b_base64 (byte_of_char c))])"
        using 3 no_pad in_table by (simp add: Let_def)
      have nxt: "(q + 1) mod 4 = 3" using 3 by simp
      show ?thesis unfolding loop acc nxt by (rule Cons.IH) (simp_all add: rest)
    next
      case 4
      have loop: "a2b_loop (map byte_of_char (c # t)) q l p out =
                    a2b_loop (map byte_of_char t) 0 0 0
                      (out @ [push_bit 6 l OR table_a2b_base64 (byte_of_char c)])"
        using 4 no_pad in_table by (simp add: Let_def)
      have nxt: "(q + 1) mod 4 = 0" using 4 by simp
      show ?thesis unfolding loop acc nxt by (rule Cons.IH) (simp_all add: rest)
    qed
  qed
qed

text \<open>
  So \<^verbatim>\<open>b64decode\<close> on text returns bytes exactly when the text is ASCII and well padded,
  raises a \<^verbatim>\<open>ValueError\<close> otherwise, and returns bytes on standard base64 text.
\<close>

lemma a2b_loop_error: "a2b_loop cs q l p out = Inl e \<Longrightarrow> e = BinasciiError"
  by (induction cs q l p out rule: a2b_loop.induct) (auto simp: Let_def split: if_splits)

lemma well_padded_accepts: "well_padded t = accepts 0 0 t"
  by (simp add: well_padded_def accepts_def)

lemma b64decode_succeeds:
  "(\<exists>bs. b64decode (PStr s) = Inr bs) \<longleftrightarrow> list_all is_ascii s \<and> well_padded (relevant s)"
proof -
  have "\<forall>c\<in>set (relevant s). in_alphabet c \<or> c = CHR ''=''"
    by (simp add: relevant_def)
  then have "(\<exists>bs. a2b_loop (map byte_of_char (relevant s)) 0 0 0 [] = Inr bs)
               \<longleftrightarrow> accepts 0 0 (relevant s)"
    by (intro a2b_loop_accepts) simp_all
  then show ?thesis
    by (simp add: a2b_base64_def well_padded_accepts a2b_loop_relevant [of s])
qed

lemma b64decode_error: "b64decode (PStr s) = Inl e \<Longrightarrow> is_ValueError e"
  using a2b_loop_error [of "map byte_of_char s" 0 0 0 "[]" e]
  by (auto simp: a2b_base64_def split: if_splits)

lemma standard_base64_well_padded:
  assumes "standard_base64 s"
  shows "list_all is_ascii s \<and> well_padded (relevant s)"
proof -
  define body where "body = takeWhile in_alphabet s"
  define pad where "pad = dropWhile in_alphabet s"
  have s: "s = body @ pad" by (simp add: body_def pad_def)
  have body: "\<forall>c\<in>set body. in_alphabet c"
    by (auto simp: body_def dest: set_takeWhileD)
  from assms have pad: "pad = [] \<or> pad = ''='' \<or> pad = ''==''"
    and len: "(length body + length pad) mod 4 = 0"
    unfolding standard_base64_def pad_def [symmetric] using s by auto
  have no_pad: "\<not> in_alphabet CHR ''=''" using alphabet_not_pad by blast
  have ascii: "list_all is_ascii s"
    using body pad alphabet_ascii unfolding s by (auto simp: list_all_iff is_ascii_def)
  have rel: "relevant s = s"
    using body pad unfolding s relevant_def by (auto simp: filter_id_conv)
  have count: "data_count body = length body"
    using body by (simp add: data_count_def filter_id_conv [THEN iffD2])
  have "well_padded s"
    using pad
  proof (elim disjE)
    assume "pad = []"
    with len show ?thesis
      unfolding s by (simp add: well_padded_def count)
  next
    assume p: "pad = ''=''"
    with len have "length body mod 4 = 3" by simp presburger
    then show ?thesis
      unfolding s p well_padded_def
      by (intro disjI2 exI [of _ "length body"]) (simp add: count)
  next
    assume p: "pad = ''==''"
    with len have "length body mod 4 = 2" by simp presburger
    then show ?thesis
      unfolding s p well_padded_def
      by (intro disjI2 exI [of _ "length body"]) (simp add: count nth_append)
  qed
  with ascii rel show ?thesis by simp
qed


text \<open>
  Claim C8 as stated fails: text with a character outside the alphabet is not standard base64,
  and the getter decodes it all the same, passing the character over.
\<close>

theorem foreign_character_counterexample:
  "\<not> standard_base64 ''aGVsbG8g!d29ybGQ=''
   \<and> fst (Env_base64_decode ''BASE64_IMAGE''
            (test_env\<lparr>env_values := [''BASE64_IMAGE'' \<mapsto> ''aGVsbG8g!d29ybGQ='']\<rparr>))
       = Inr (map byte_of_char ''hello world'')"
  by code_simp

text \<open>
  Claim C8, amended: the base64 getter decodes base64 text to bytes, passing over the
  characters that are neither in the alphabet nor pads. For a key whose resolved value is text,
  it raises the module's error exactly when the text has a character above 127 or, the
  characters passed over being left out, is not well padded; otherwise it returns bytes. Standard
  base64 text is never refused.
\<close>

theorem base64_decode_fails_iff_badly_padded:
  assumes "env_values self key = Some raw"
    and "fst (Env_apply_custom_parser key raw self) = Inr (PStr s)"
  shows "(Env_base64_decode key self =
            (Inl (EnvParseError (Not_valid (PStr s) key ''base64 encoded data'')), self))
           = (\<not> (list_all is_ascii s \<and> well_padded (relevant s)))
       \<and> (list_all is_ascii s \<and> well_padded (relevant s) \<longrightarrow>
            (\<exists>bs. Env_base64_decode key self = (Inr bs, self)))
       \<and> (standard_base64 s \<longrightarrow> list_all is_ascii s \<and> well_padded (relevant s))"
proof -
  from assms(2) have resolved: "Env_apply_custom_parser key raw self = (Inr (PStr s), self)"
    by (auto simp: Env_apply_custom_parser_def split: if_splits)
  with assms(1)
  have getter: "Env_base64_decode key self = (convert_base64 key (PStr s), self)"
    by (simp add: Env_base64_decode_def Env_get_def and_then_def finish_def dom_def)
  show ?thesis
  proof (cases "b64decode (PStr s)")
    case (Inl e)
    then have "is_ValueError e" by (rule b64decode_error)
    moreover from Inl have "\<not> (list_all is_ascii s \<and> well_padded (relevant s))"
      using b64decode_succeeds [of s] by simp
    ultimately show ?thesis
      using Inl standard_base64_well_padded [of s]
      by (auto simp: getter convert_base64_def try_except_def)
  next
    case (Inr bs)
    then have "list_all is_ascii s \<and> well_padded (relevant s)"
      using b64decode_succeeds [of s] by blast
    with Inr show ?thesis
      by (simp add: getter convert_base64_def try_except_def)
  qed
qed

theorem base64_decode_fails_iff_badly_padded_witness:
  "env_values test_env ''BASE64_IMAGE'' = Some ''aGVsbG8gd29ybGQ=''
   \<and> fst (Env_apply_custom_parser ''BASE64_IMAGE'' ''aGVsbG8gd29ybGQ='' test_env)
       = Inr (PStr ''aGVsbG8gd29ybGQ='')
   \<and> standard_base64 ''aGVsbG8gd29ybGQ=''
   \<and> (\<exists>bs. Env_base64_decode ''BASE64_IMAGE'' test_env = (Inr bs, test_env))
   \<and> fst (Env_base64_decode ''BASE64_IMAGE'' test_env) = Inr (map byte_of_char ''hello world'')"
proof -
  have present: "env_values test_env ''BASE64_IMAGE'' = Some ''aGVsbG8gd29ybGQ=''"
    by (simp add: test_env_def)
  have resolved: "fst (Env_apply_custom_parser ''BASE64_IMAGE'' ''aGVsbG8gd29ybGQ='' test_env)
                    = Inr (PStr ''aGVsbG8gd29ybGQ='')"
    by (simp add: Env_apply_custom_parser_def test_env_def)
  have standard: "standard_base64 ''aGVsbG8gd29ybGQ=''"
    by code_simp
  have bytes: "fst (Env_base64_decode ''BASE64_IMAGE'' test_env)
                 = Inr (map byte_of_char ''hello world'')"
    by code_simp
  from base64_decode_fails_iff_badly_padded [OF present resolved] standard
  have "\<exists>bs. Env_base64_decode ''BASE64_IMAGE'' test_env = (Inr bs, test_env)"
    by blast
  with present resolved standard bytes show ?thesis by blast
qed

end
